theory Spec2Isabelle
  imports
    Main
    "HOL-Library.Char_ord"
    "HOL-Library.List_Lexorder"
    "HOL-Library.AList"
    "HOL-Library.Signed_Division"
begin

section \<open>Go library functions the executor calls\<close>

text \<open>
  The backup executor (\<^verbatim>\<open>BackupExecutor\<close>) formats integers and clock readings,
  trims and searches strings, and talks to the operating system. The functions of this
  section model the library calls it makes, on the values it passes to them. Go strings are
  byte strings, so they are \<^typ>\<open>string\<close> here, and Go's string comparison is the
  lexicographic order on bytes, which is the order of \<^typ>\<open>char list\<close> from
  \<open>List_Lexorder\<close> over \<open>Char_ord\<close>. Go's \<^verbatim>\<open>int\<close> is \<^typ>\<open>int\<close>: the executor
  only compares such values and prints them, apart from one subtraction discussed at
  \<open>pruneOldLogs\<close>.
\<close>

subsection \<open>Decimal printing\<close>

definition digit_char :: "nat \<Rightarrow> char" where
  "digit_char d = char_of (48 + d)"

fun itoa_nat :: "nat \<Rightarrow> string" where
  "itoa_nat n = (if n < 10 then [digit_char n] else itoa_nat (n div 10) @ [digit_char (n mod 10)])"

declare itoa_nat.simps [simp del]

text \<open>The verb \<^verbatim>\<open>%d\<close> of \<^verbatim>\<open>fmt.Sprintf\<close> on an \<^verbatim>\<open>int\<close>.\<close>

definition fmt_d :: "int \<Rightarrow> string" where
  "fmt_d i = (if i < 0 then CHR ''-'' # itoa_nat (nat (- i)) else itoa_nat (nat i))"

text \<open>
  \<^verbatim>\<open>appendInt\<close> of package \<^verbatim>\<open>time\<close>: the decimal form of \<open>x\<close>, zero-padded to at
  least \<open>width\<close> digits, after a minus sign when \<open>x\<close> is negative.
\<close>

definition appendInt :: "int \<Rightarrow> nat \<Rightarrow> string" where
  "appendInt x width =
     (let u = itoa_nat (nat \<bar>x\<bar>)
      in (if x < 0 then ''-'' else []) @ replicate (width - length u) (CHR ''0'') @ u)"

subsection \<open>Clock readings\<close>

text \<open>
  A \<^verbatim>\<open>time.Time\<close> as the executor uses it: the civil fields of the reading in the
  local zone (what \<^verbatim>\<open>Format\<close> prints), the zone's offset in seconds east of UTC, and
  the instant in nanoseconds (what \<^verbatim>\<open>Sub\<close> subtracts). The calendar that relates them
  belongs to the \<^verbatim>\<open>time\<close> package; a reading comes from \<^verbatim>\<open>time.Now()\<close> and is an
  input of every operation that takes one.
\<close>

record Time =
  t_year :: int
  t_month :: int
  t_day :: int
  t_hour :: int
  t_minute :: int
  t_second :: int
  t_offset :: int
  t_nano :: int

text \<open>The zero value of \<^verbatim>\<open>time.Time\<close>: January 1, year 1, 00:00:00 UTC.\<close>

definition zeroTime :: Time where
  "zeroTime = \<lparr>t_year = 1, t_month = 1, t_day = 1, t_hour = 0, t_minute = 0, t_second = 0,
     t_offset = 0, t_nano = - 62135596800000000000\<rparr>"

text \<open>\<^verbatim>\<open>t.Format("20060102-150405")\<close>.\<close>

definition Format_runID :: "Time \<Rightarrow> string" where
  "Format_runID t =
     appendInt (t_year t) 4 @ appendInt (t_month t) 2 @ appendInt (t_day t) 2 @ ''-'' @
     appendInt (t_hour t) 2 @ appendInt (t_minute t) 2 @ appendInt (t_second t) 2"

text \<open>\<^verbatim>\<open>t.Format(time.RFC3339)\<close>, the layout \<^verbatim>\<open>2006-01-02T15:04:05Z07:00\<close>.\<close>

definition Format_zone :: "int \<Rightarrow> string" where
  "Format_zone off =
     (if off = 0 then ''Z''
      else let zone = off sdiv 60;
               a = \<bar>zone\<bar>
           in (if zone < 0 then ''-'' else ''+'') @ appendInt (a div 60) 2 @ '':'' @
              appendInt (a mod 60) 2)"

definition Format_RFC3339 :: "Time \<Rightarrow> string" where
  "Format_RFC3339 t =
     appendInt (t_year t) 4 @ ''-'' @ appendInt (t_month t) 2 @ ''-'' @ appendInt (t_day t) 2 @
     ''T'' @ appendInt (t_hour t) 2 @ '':'' @ appendInt (t_minute t) 2 @ '':'' @
     appendInt (t_second t) 2 @ Format_zone (t_offset t)"

text \<open>
  \<^verbatim>\<open>t.Sub(u)\<close> is the difference of the instants as a \<^verbatim>\<open>Duration\<close> (an
  \<^verbatim>\<open>int64\<close> of nanoseconds), saturating at the ends of the \<^verbatim>\<open>int64\<close> range.
\<close>

definition maxDuration :: int where
  "maxDuration = 2 ^ 63 - 1"

definition minDuration :: int where
  "minDuration = - (2 ^ 63)"

definition Time_Sub :: "Time \<Rightarrow> Time \<Rightarrow> int" where
  "Time_Sub t u = max minDuration (min maxDuration (t_nano t - t_nano u))"

definition Second :: int where
  "Second = 1000000000"

text \<open>\<^verbatim>\<open>d.Truncate(m)\<close> rounds toward zero to a multiple of \<open>m\<close>.\<close>

definition Duration_Truncate :: "int \<Rightarrow> int \<Rightarrow> int" where
  "Duration_Truncate d m = (if m \<le> 0 then d else d - d smod m)"

text \<open>
  \<^verbatim>\<open>d.String()\<close> for a duration of whole seconds, which is all \<open>finishRun\<close> passes
  to it: \<^verbatim>\<open>0s\<close>, \<^verbatim>\<open>42s\<close>, \<^verbatim>\<open>3m0s\<close>, \<^verbatim>\<open>1h0m5s\<close>, with a leading minus sign when
  negative. (The sub-second forms of \<^verbatim>\<open>String\<close> are never reached after
  \<^verbatim>\<open>Truncate(time.Second)\<close>.)
\<close>

definition Duration_String :: "int \<Rightarrow> string" where
  "Duration_String d =
     (let u = nat (\<bar>d\<bar> div Second)
      in if u = 0 then ''0s''
         else (if d < 0 then ''-'' else []) @
              (if u div 3600 > 0 then itoa_nat (u div 3600) @ ''h'' else []) @
              (if u div 60 > 0 then itoa_nat (u div 60 mod 60) @ ''m'' else []) @
              itoa_nat (u mod 60) @ ''s'')"

subsection \<open>Package strings\<close>

definition HasPrefix :: "string \<Rightarrow> string \<Rightarrow> bool" where
  "HasPrefix s p = (length p \<le> length s \<and> take (length p) s = p)"

definition HasSuffix :: "string \<Rightarrow> string \<Rightarrow> bool" where
  "HasSuffix s suf = (length suf \<le> length s \<and> drop (length s - length suf) s = suf)"

fun Contains :: "string \<Rightarrow> string \<Rightarrow> bool" where
  "Contains [] sub = (sub = [])"
| "Contains (c # s) sub = (HasPrefix (c # s) sub \<or> Contains s sub)"

text \<open>\<^verbatim>\<open>strings.TrimRight(s, cutset)\<close> removes every trailing byte that is in the cutset.\<close>

definition TrimRight :: "string \<Rightarrow> string \<Rightarrow> string" where
  "TrimRight s cutset = rev (dropWhile (\<lambda>c. c \<in> set cutset) (rev s))"

fun Join :: "string list \<Rightarrow> string \<Rightarrow> string" where
  "Join [] sep = []"
| "Join [a] sep = a"
| "Join (a # b # rest) sep = a @ sep @ Join (b # rest) sep"

subsection \<open>Files and processes\<close>

text \<open>
  Every path the executor builds is \<^verbatim>\<open>filepath.Join(cfg.LogDir, name)\<close>; a path is kept
  as that pair. A directory is present or not, can be created by \<^verbatim>\<open>MkdirAll\<close> or
  not, and lists its entries by name. Each call to the operating system is recorded in the
  trace of the world, in the order the calls are made. Failures for lack of permission on
  single files are not modelled: a call fails when the directory is missing or the entry
  has the wrong kind. Messages written with \<^verbatim>\<open>log.Printf\<close> go to the process's standard
  error and leave no mark here.
\<close>

datatype node = File string | Dir

record directory =
  present :: bool
  can_mkdir :: bool
  entries :: "(string \<times> node) list"

type_synonym path = "string \<times> string"

definition filepath_Join :: "string \<Rightarrow> string \<Rightarrow> path" where
  "filepath_Join dir name = (dir, name)"

datatype event =
    EvMkdirAll string
  | EvCreate path
  | EvFprintf path string
  | EvExec string "string list"
  | EvWriteFile path string
  | EvReadFile path
  | EvReadDir string
  | EvRemove path

record world =
  dirs :: "string \<Rightarrow> directory"
  trace :: "event list"

definition emit :: "event \<Rightarrow> world \<Rightarrow> world" where
  "emit e w = w\<lparr>trace := trace w @ [e]\<rparr>"

definition set_entries :: "string \<Rightarrow> (string \<times> node) list \<Rightarrow> world \<Rightarrow> world" where
  "set_entries d es w = w\<lparr>dirs := (dirs w)(d := (dirs w d)\<lparr>entries := es\<rparr>)\<rparr>"

definition lookup :: "world \<Rightarrow> path \<Rightarrow> node option" where
  "lookup w p = (if present (dirs w (fst p)) then map_of (entries (dirs w (fst p))) (snd p) else None)"

definition os_MkdirAll :: "string \<Rightarrow> world \<Rightarrow> bool \<times> world" where
  "os_MkdirAll d w =
     (let w' = emit (EvMkdirAll d) w
      in if present (dirs w d) then (True, w')
         else if can_mkdir (dirs w d)
         then (True, w'\<lparr>dirs := (dirs w)(d := (dirs w d)\<lparr>present := True, entries := []\<rparr>)\<rparr>)
         else (False, w'))"

text \<open>\<^verbatim>\<open>os.Create\<close> makes the file, or empties it when it is there.\<close>

definition os_Create :: "path \<Rightarrow> world \<Rightarrow> bool \<times> world" where
  "os_Create p w =
     (let w' = emit (EvCreate p) w
      in if present (dirs w (fst p)) \<and> lookup w p \<noteq> Some Dir
         then (True, set_entries (fst p) (AList.update (snd p) (File []) (entries (dirs w (fst p)))) w')
         else (False, w'))"

text \<open>A write through the open transcript file appends to it.\<close>

definition file_append :: "path \<Rightarrow> string \<Rightarrow> world \<Rightarrow> world" where
  "file_append p s w =
     (case lookup w p of
        Some (File c) \<Rightarrow> set_entries (fst p) (AList.update (snd p) (File (c @ s)) (entries (dirs w (fst p)))) w
      | _ \<Rightarrow> w)"

definition Fprintf :: "path \<Rightarrow> string \<Rightarrow> world \<Rightarrow> world" where
  "Fprintf p s w = file_append p s (emit (EvFprintf p s) w)"

definition os_WriteFile :: "path \<Rightarrow> string \<Rightarrow> world \<Rightarrow> bool \<times> world" where
  "os_WriteFile p data w =
     (let w' = emit (EvWriteFile p data) w
      in if present (dirs w (fst p)) \<and> lookup w p \<noteq> Some Dir
         then (True, set_entries (fst p) (AList.update (snd p) (File data) (entries (dirs w (fst p)))) w')
         else (False, w'))"

definition os_ReadFile :: "path \<Rightarrow> world \<Rightarrow> string option \<times> world" where
  "os_ReadFile p w =
     (case lookup w p of
        Some (File c) \<Rightarrow> (Some c, emit (EvReadFile p) w)
      | _ \<Rightarrow> (None, emit (EvReadFile p) w))"

text \<open>\<^verbatim>\<open>os.ReadDir\<close> returns the entries sorted by file name.\<close>

definition os_ReadDir :: "string \<Rightarrow> world \<Rightarrow> (string \<times> node) list option \<times> world" where
  "os_ReadDir d w =
     (if present (dirs w d) then (Some (sort_key fst (entries (dirs w d))), emit (EvReadDir d) w)
      else (None, emit (EvReadDir d) w))"

text \<open>
  \<^verbatim>\<open>os.Remove\<close>, which the executor calls on regular files only; its error is ignored
  by the caller.
\<close>

definition os_Remove :: "path \<Rightarrow> world \<Rightarrow> world" where
  "os_Remove p w =
     (let w' = emit (EvRemove p) w
      in case lookup w p of
           Some (File c) \<Rightarrow> set_entries (fst p) (AList.delete (snd p) (entries (dirs w (fst p)))) w'
         | _ \<Rightarrow> w')"

text \<open>
  What \<^verbatim>\<open>cmd.Run()\<close> returns: \<^verbatim>\<open>nil\<close>, an \<^verbatim>\<open>*exec.ExitError\<close> with its exit code,
  or another error (the program could not be started). The library returns an
  \<^verbatim>\<open>ExitError\<close> only for a process that did not succeed, so its code is never 0; it is
  -1 for a process ended by a signal.
\<close>

datatype cmd_result = CmdOk | ExitError int | OtherError

section \<open>The data model\<close>

type_synonym BackupStatus = string

definition StatusIdle :: BackupStatus where
  "StatusIdle = ''idle''"

definition StatusRunning :: BackupStatus where
  "StatusRunning = ''running''"

definition StatusSuccess :: BackupStatus where
  "StatusSuccess = ''success''"

definition StatusWarning :: BackupStatus where
  "StatusWarning = ''warning''"

definition StatusFailed :: BackupStatus where
  "StatusFailed = ''failed''"

record BackupRun =
  ID :: string
  StartTime :: Time
  EndTime :: Time
  Duration :: string
  Status :: BackupStatus
  ExitCode :: int
  LogFile :: string
  Summary :: string

text \<open>
  \<^verbatim>\<open>encoding/json\<close> on a \<^verbatim>\<open>[]BackupRun\<close>: \<^verbatim>\<open>MarshalIndent\<close> gives the document or
  fails, \<^verbatim>\<open>Unmarshal\<close> gives the records or fails. The library is a parameter of the
  operations that persist and load the history.
\<close>

record json =
  MarshalIndent :: "BackupRun list \<Rightarrow> string option"
  Unmarshal :: "string \<Rightarrow> BackupRun list option"

record Config =
  SourcePath :: string
  SourceIsFile :: bool
  RemoteHost :: string
  RemotePath :: string
  SSHKeyPath :: string
  Schedule :: string
  BandwidthLimit :: int
  ListenAddr :: string
  LogDir :: string
  MaxLogFiles :: int

text \<open>
  The mutable fields of \<^verbatim>\<open>BackupExecutor\<close>. The mutex makes \<open>Run\<close>, \<open>finishRun\<close>
  and the four readers atomic, so each is one function on this state; the configuration
  and the command factory are passed where they are used.
\<close>

record BackupExecutor =
  status :: BackupStatus
  current :: "BackupRun option"
  history :: "BackupRun list"

text \<open>
  Errors made with \<^verbatim>\<open>fmt.Errorf\<close>, the \<^verbatim>\<open>*PathError\<close> of a failed \<^verbatim>\<open>os.ReadFile\<close>,
  and run-time panics.
\<close>

datatype error = Error string | PathError path | Panic string

section \<open>The executor\<close>

definition historyPath :: "Config \<Rightarrow> path" where
  "historyPath cfg = filepath_Join (LogDir cfg) ''history.json''"

definition loadHistory :: "json \<Rightarrow> Config \<Rightarrow> BackupExecutor \<times> world \<Rightarrow> BackupExecutor \<times> world" where
  "loadHistory lib cfg s =
     (case os_ReadFile (historyPath cfg) (snd s) of
        (None, w) \<Rightarrow> (fst s, w)
      | (Some data, w) \<Rightarrow>
          (case Unmarshal lib data of
             None \<Rightarrow> (fst s, w)
           | Some runs \<Rightarrow>
               ((fst s)\<lparr>history := runs,
                        status := (if length runs > 0 then Status (runs ! 0) else status (fst s))\<rparr>, w)))"

definition NewBackupExecutor :: "json \<Rightarrow> Config \<Rightarrow> world \<Rightarrow> BackupExecutor \<times> world" where
  "NewBackupExecutor lib cfg w =
     loadHistory lib cfg (\<lparr>status = StatusIdle, current = None, history = []\<rparr>, w)"

definition ex_Status :: "BackupExecutor \<Rightarrow> BackupStatus" where
  "ex_Status ex = status ex"

definition ex_Current :: "BackupExecutor \<Rightarrow> BackupRun option" where
  "ex_Current ex = (case current ex of Some r \<Rightarrow> Some r | None \<Rightarrow> None)"

definition ex_History :: "BackupExecutor \<Rightarrow> BackupRun list" where
  "ex_History ex = take (length (history ex)) (history ex)"

definition ex_LastRun :: "BackupExecutor \<Rightarrow> BackupRun option" where
  "ex_LastRun ex = (if length (history ex) = 0 then None else Some (history ex ! 0))"

text \<open>
  \<open>Run\<close> reads the clock twice: the first reading names the run, the second is its start
  time. On success it hands the new record and the transcript's path to a goroutine
  running \<open>execute\<close>; that pair is the result here.
\<close>

definition Run :: "Config \<Rightarrow> Time \<Rightarrow> Time \<Rightarrow> BackupExecutor \<Rightarrow> (error + BackupRun \<times> path) \<times> BackupExecutor" where
  "Run cfg now1 now2 ex =
     (if status ex = StatusRunning then (Inl (Error ''backup already in progress''), ex)
      else
        let runID = Format_runID now1;
            logFileName = ''backup-'' @ runID @ ''.log'';
            logPath = filepath_Join (LogDir cfg) logFileName;
            run = \<lparr>ID = runID, StartTime = now2, EndTime = zeroTime, Duration = [],
                   Status = StatusRunning, ExitCode = 0, LogFile = logFileName, Summary = []\<rparr>
        in (Inr (run, logPath), ex\<lparr>status := StatusRunning, current := Some run\<rparr>))"

definition buildRsyncArgs :: "Config \<Rightarrow> string list" where
  "buildRsyncArgs cfg =
     (let args = [''-avz'', ''--delete'', ''--partial'', ''--stats'', ''-e'',
                  ''ssh -i '' @ SSHKeyPath cfg @
                  '' -o StrictHostKeyChecking=no -o UserKnownHostsFile=/dev/null''];
          args = (if BandwidthLimit cfg > 0
                  then args @ [''--bwlimit='' @ fmt_d (BandwidthLimit cfg)] else args);
          source = (if SourceIsFile cfg then SourcePath cfg
                    else TrimRight (SourcePath cfg) ''/'' @ ''/'');
          dest = RemoteHost cfg @ '':'' @ TrimRight (RemotePath cfg) ''/'' @ ''/''
      in args @ [source, dest])"

text \<open>The dash of two of the summaries is U+2014, three bytes in UTF-8.\<close>

definition em_dash :: string where
  "em_dash = [char_of (226::nat), char_of (128::nat), char_of (148::nat)]"

definition rsyncExitSummary :: "int \<Rightarrow> string" where
  "rsyncExitSummary code =
     (if code = 1 then ''syntax or usage error''
      else if code = 2 then ''protocol incompatibility''
      else if code = 3 then ''errors selecting input/output files''
      else if code = 5 then ''error starting client-server protocol''
      else if code = 10 then ''error in socket I/O''
      else if code = 11 then ''error in file I/O''
      else if code = 12 then ''error in rsync protocol data stream''
      else if code = 14 then ''error in IPC code''
      else if code = 20 then ''interrupted by signal''
      else if code = 23 then ''partial transfer '' @ em_dash @ '' some files could not be transferred''
      else if code = 24 then ''partial transfer '' @ em_dash @ '' some source files vanished during sync''
      else if code = 25 then ''max-delete limit reached''
      else if code = 30 then ''timeout in data send/receive''
      else if code = 35 then ''timeout waiting for daemon connection''
      else if code = 255 then ''SSH connection failed '' @ em_dash @ '' remote host unreachable or auth denied''
      else ''rsync error (exit code '' @ fmt_d code @ '')'')"

definition isPartialTransfer :: "int \<Rightarrow> bool" where
  "isPartialTransfer exitCode = (exitCode = 23 \<or> exitCode = 24)"

definition saveHistory :: "json \<Rightarrow> Config \<Rightarrow> BackupExecutor \<Rightarrow> world \<Rightarrow> world" where
  "saveHistory lib cfg ex w =
     (case MarshalIndent lib (history ex) of
        None \<Rightarrow> w
      | Some data \<Rightarrow> snd (os_WriteFile (historyPath cfg) data w))"

text \<open>
  \<open>finishRun\<close> completes the record \<open>run\<close> (the one \<open>Run\<close> handed to the goroutine,
  which is also the current run), with the clock reading \<open>now\<close>.
\<close>

definition finishRun :: "json \<Rightarrow> Config \<Rightarrow> BackupRun \<Rightarrow> int \<Rightarrow> string \<Rightarrow> Time \<Rightarrow>
    BackupExecutor \<times> world \<Rightarrow> BackupExecutor \<times> world" where
  "finishRun lib cfg run exitCode summary now s =
     (let run = run\<lparr>EndTime := now\<rparr>;
          run = run\<lparr>Duration := Duration_String (Duration_Truncate (Time_Sub (EndTime run) (StartTime run)) Second)\<rparr>;
          run = run\<lparr>ExitCode := exitCode\<rparr>;
          run = run\<lparr>Summary := summary\<rparr>;
          st = (if exitCode = 0 then StatusSuccess
                else if isPartialTransfer exitCode then StatusWarning
                else StatusFailed);
          run = run\<lparr>Status := st\<rparr>;
          ex = (fst s)\<lparr>status := st\<rparr>;
          ex = ex\<lparr>current := None\<rparr>;
          ex = ex\<lparr>history := run # history ex\<rparr>;
          ex = (if length (history ex) > 100 then ex\<lparr>history := take 100 (history ex)\<rparr> else ex)
      in (ex, saveHistory lib cfg ex (snd s)))"

text \<open>
  The transcript files among the entries \<^verbatim>\<open>os.ReadDir\<close> returned, and \<open>pruneOldLogs\<close>.
  The slice \<^verbatim>\<open>logFiles\<close> is built by \<^verbatim>\<open>append\<close>, so its capacity may exceed its
  length; how much spare capacity the runtime leaves after \<open>n\<close> appends is the parameter
  \<open>spare\<close> (a slice that was never appended to has capacity 0), and the entries past
  the length are nil. Go allows the slice expression \<^verbatim>\<open>logFiles[:k]\<close> for every \<open>k\<close> up
  to the capacity and panics beyond it. So when the configured maximum is negative, \<open>k\<close>
  is more than the length, and either the slice expression panics and nothing is removed,
  or it reaches into the spare capacity: the loop then removes every transcript and
  panics at \<^verbatim>\<open>f.Name()\<close> on the first nil entry. A panic in the goroutine ends the
  process; the result then carries the panic and the state at that moment. (A difference
  \<open>k\<close> beyond the range of \<^verbatim>\<open>int\<close> wraps to a negative bound, which panics at the slice
  expression as well.)
\<close>

definition isTranscript :: "string \<times> node \<Rightarrow> bool" where
  "isTranscript e = (snd e \<noteq> Dir \<and> HasPrefix (fst e) ''backup-'' \<and> HasSuffix (fst e) ''.log'')"

fun removeAll_files :: "string \<Rightarrow> string list \<Rightarrow> world \<Rightarrow> world" where
  "removeAll_files d [] w = w"
| "removeAll_files d (n # ns) w = removeAll_files d ns (os_Remove (filepath_Join d n) w)"

definition slice_cap :: "(nat \<Rightarrow> nat) \<Rightarrow> nat \<Rightarrow> nat" where
  "slice_cap spare n = (if n = 0 then 0 else n + spare n)"

definition pruneOldLogs :: "(nat \<Rightarrow> nat) \<Rightarrow> Config \<Rightarrow> world \<Rightarrow> error \<times> world + world" where
  "pruneOldLogs spare cfg w =
     (case os_ReadDir (LogDir cfg) w of
        (None, w1) \<Rightarrow> Inr w1
      | (Some es, w1) \<Rightarrow>
          let logFiles = filter isTranscript es
          in if int (length logFiles) \<le> MaxLogFiles cfg then Inr w1
             else
               let sorted_files = sort_key fst logFiles;
                   k = int (length sorted_files) - MaxLogFiles cfg
               in if int (slice_cap spare (length sorted_files)) < k
                  then Inl (Panic ''slice bounds out of range'', w1)
                  else if int (length sorted_files) < k
                  then Inl (Panic ''nil pointer dereference'',
                            removeAll_files (LogDir cfg) (map fst sorted_files) w1)
                  else Inr (removeAll_files (LogDir cfg) (map fst (take (nat k) sorted_files)) w1))"

text \<open>
  \<open>execute\<close> runs in its own goroutine. The environment gives it what \<^verbatim>\<open>cmd.Run()\<close>
  returns, what the process prints, the two clock readings taken after the process
  ends, and the spare capacity the runtime leaves in the slice of transcripts. It touches
  the executor's state in \<open>finishRun\<close> only. When \<open>pruneOldLogs\<close> panics the result is
  the panic with the executor's state and the world as they are then.
\<close>

record exec_env =
  cmd_res :: cmd_result
  cmd_out :: string
  now_banner :: Time
  now_finish :: Time
  spare_cap :: "nat \<Rightarrow> nat"

definition execute :: "json \<Rightarrow> Config \<Rightarrow> exec_env \<Rightarrow> BackupRun \<Rightarrow> path \<Rightarrow>
    BackupExecutor \<times> world \<Rightarrow> error \<times> BackupExecutor \<times> world + BackupExecutor \<times> world" where
  "execute lib cfg env run logPath s =
     (let w = snd (os_MkdirAll (LogDir cfg) (snd s))
      in case os_Create logPath w of
           (False, w) \<Rightarrow> Inr (finishRun lib cfg run 1 ''failed to create log file'' (now_finish env) (fst s, w))
         | (True, w) \<Rightarrow>
             let args = buildRsyncArgs cfg;
                 w = Fprintf logPath (''=== Backup started at '' @ Format_RFC3339 (StartTime run) @ '' ===\<newline>'') w;
                 w = Fprintf logPath (''Command: rsync '' @ Join args '' '' @ ''\<newline>\<newline>'') w;
                 w = file_append logPath (cmd_out env) (emit (EvExec ''rsync'' args) w);
                 (exitCode, summary) =
                    (case cmd_res env of
                       CmdOk \<Rightarrow> (0, ''completed successfully'')
                     | ExitError c \<Rightarrow> (c, rsyncExitSummary c)
                     | OtherError \<Rightarrow> (1, rsyncExitSummary 1));
                 w = Fprintf logPath (''\<newline>=== Backup finished at '' @ Format_RFC3339 (now_banner env) @
                        '' (exit code: '' @ fmt_d exitCode @ '') ===\<newline>'') w;
                 (ex, w) = finishRun lib cfg run exitCode summary (now_finish env) (fst s, w)
             in (case pruneOldLogs (spare_cap env) cfg w of
                   Inl (e, w) \<Rightarrow> Inl (e, ex, w)
                 | Inr w \<Rightarrow> Inr (ex, w)))"

text \<open>The sanitising test of \<open>ReadLog\<close>, and \<open>ReadLog\<close>.\<close>

definition ReadLog :: "Config \<Rightarrow> string \<Rightarrow> world \<Rightarrow> (error + string) \<times> world" where
  "ReadLog cfg filename w =
     (if Contains filename ''/'' \<or> Contains filename [CHR 0x5C] \<or> Contains filename ''..''
      then (Inl (Error ''invalid log filename''), w)
      else case os_ReadFile (filepath_Join (LogDir cfg) filename) w of
             (None, w) \<Rightarrow> (Inl (PathError (filepath_Join (LogDir cfg) filename)), w)
           | (Some data, w) \<Rightarrow> (Inr data, w))"

text \<open>
  The operations on an executor, each atomic under the mutex, as steps on the pair of the
  executor's state and the world. The goroutine of a run calls \<open>finishRun\<close> on the record
  \<open>Run\<close> gave it; a step may finish any record, which covers those calls. The four
  readers return copies and change nothing.
\<close>

datatype operation =
    OpRun Time Time
  | OpFinish BackupRun int string Time
  | OpStatus
  | OpCurrent
  | OpHistory
  | OpLastRun

fun step :: "json \<Rightarrow> Config \<Rightarrow> BackupExecutor \<times> world \<Rightarrow> operation \<Rightarrow> BackupExecutor \<times> world" where
  "step lib cfg s (OpRun now1 now2) = (snd (Run cfg now1 now2 (fst s)), snd s)"
| "step lib cfg s (OpFinish run exitCode summary now) = finishRun lib cfg run exitCode summary now s"
| "step lib cfg s OpStatus = s"
| "step lib cfg s OpCurrent = s"
| "step lib cfg s OpHistory = s"
| "step lib cfg s OpLastRun = s"

section \<open>Sample values\<close>

text \<open>Concrete inputs on which the theorems below are exercised.\<close>

definition sample_time :: Time where
  "sample_time = \<lparr>t_year = 2024, t_month = 3, t_day = 9, t_hour = 7, t_minute = 5, t_second = 0,
     t_offset = 0, t_nano = 1709967900000000000\<rparr>"

definition sample_later :: Time where
  "sample_later = \<lparr>t_year = 2024, t_month = 3, t_day = 9, t_hour = 7, t_minute = 5, t_second = 0,
     t_offset = 0, t_nano = 1709967900750000000\<rparr>"

definition sample_cfg :: Config where
  "sample_cfg = \<lparr>SourcePath = ''/mnt/plex-media/'', SourceIsFile = False,
     RemoteHost = ''user@h'', RemotePath = ''/backups/x/'', SSHKeyPath = ''~/.ssh/test_key'',
     Schedule = ''0 3 * * *'', BandwidthLimit = 5000, ListenAddr = '':8090'',
     LogDir = ''./logs'', MaxLogFiles = 3\<rparr>"

definition sample_run :: BackupRun where
  "sample_run = \<lparr>ID = ''20240309-070500'', StartTime = sample_time, EndTime = zeroTime,
     Duration = [], Status = StatusRunning, ExitCode = 0,
     LogFile = ''backup-20240309-070500.log'', Summary = []\<rparr>"

definition idle_executor :: BackupExecutor where
  "idle_executor = \<lparr>status = StatusIdle, current = None, history = []\<rparr>"

definition busy_executor :: BackupExecutor where
  "busy_executor = \<lparr>status = StatusRunning, current = Some sample_run, history = []\<rparr>"

text \<open>
  A stand-in for \<^verbatim>\<open>encoding/json\<close> given by the finite table of the documents it
  produces: a history is marshalled to the document beside it and a document is
  unmarshalled to the history beside it; anything else is an error.
\<close>

definition json_table :: "(BackupRun list \<times> string) list \<Rightarrow> json" where
  "json_table tbl =
     \<lparr>MarshalIndent = map_of tbl, Unmarshal = map_of (map (\<lambda>(h, d). (d, h)) tbl)\<rparr>"

definition sample_done :: BackupRun where
  "sample_done = sample_run\<lparr>EndTime := sample_later, Duration := ''0s'', ExitCode := 0,
     Summary := ''completed successfully'', Status := StatusSuccess\<rparr>"

definition sample_document :: string where
  \<open>sample_document =
     ''[\<newline>  {\<newline>    "id": "20240309-070500",\<newline>    "start_time": "2024-03-09T07:05:00Z",\<newline>'' @
     ''    "end_time": "2024-03-09T07:05:00.75Z",\<newline>    "duration": "0s",\<newline>'' @
     ''    "status": "success",\<newline>    "exit_code": 0,\<newline>'' @
     ''    "log_file": "backup-20240309-070500.log",\<newline>'' @
     ''    "summary": "completed successfully"\<newline>  }\<newline>]''\<close>

definition sample_failed :: BackupRun where
  "sample_failed = sample_run\<lparr>EndTime := sample_later, Duration := ''0s'', ExitCode := 1,
     Summary := ''failed to create log file'', Status := StatusFailed\<rparr>"

definition sample_failed_document :: string where
  \<open>sample_failed_document =
     ''[\<newline>  {\<newline>    "id": "20240309-070500",\<newline>    "start_time": "2024-03-09T07:05:00Z",\<newline>'' @
     ''    "end_time": "2024-03-09T07:05:00.75Z",\<newline>    "duration": "0s",\<newline>'' @
     ''    "status": "failed",\<newline>    "exit_code": 1,\<newline>'' @
     ''    "log_file": "backup-20240309-070500.log",\<newline>'' @
     ''    "summary": "failed to create log file"\<newline>  }\<newline>]''\<close>

definition sample_lib :: json where
  "sample_lib = json_table
     [([sample_done], sample_document), ([sample_failed], sample_failed_document)]"

definition locked_world :: world where
  "locked_world = \<lparr>dirs = (\<lambda>d. \<lparr>present = False, can_mkdir = False, entries = []\<rparr>), trace = []\<rparr>"

definition fresh_world :: world where
  "fresh_world = \<lparr>dirs = (\<lambda>d. \<lparr>present = False, can_mkdir = True, entries = []\<rparr>), trace = []\<rparr>"

text \<open>
  The capacity of a slice grown from nil by one \<^verbatim>\<open>append\<close> at a time, as the Go runtime
  grows small slices: 1 at the first element, doubled whenever the slice is full.
\<close>

primrec append_cap :: "nat \<Rightarrow> nat" where
  "append_cap 0 = 0"
| "append_cap (Suc n) =
     (if Suc n \<le> append_cap n then append_cap n
      else if append_cap n = 0 then 1 else 2 * append_cap n)"

definition doubling_spare :: "nat \<Rightarrow> nat" where
  "doubling_spare n = append_cap n - n"

definition sample_env :: exec_env where
  "sample_env = \<lparr>cmd_res = CmdOk, cmd_out = ''sent 120 bytes  received 35 bytes\<newline>'',
     now_banner = sample_later, now_finish = sample_later, spare_cap = doubling_spare\<rparr>"

text \<open>
  The single-flight invariant as the readers see it: \<open>Current()\<close> returns a run exactly
  when \<open>Status()\<close> returns running.
\<close>

definition single_flight :: "BackupExecutor \<Rightarrow> bool" where
  "single_flight ex = ((ex_Current ex \<noteq> None) = (ex_Status ex = StatusRunning))"

text \<open>A log directory after one successful run, with its transcript and its history file.\<close>

definition used_world :: world where
  "used_world =
     \<lparr>dirs = (\<lambda>d. \<lparr>present = False, can_mkdir = True, entries = []\<rparr>)
        (''./logs'' := \<lparr>present = True, can_mkdir = True,
           entries = [(''backup-20240309-070500.log'', File ''sent 120 bytes\<newline>''),
                      (''history.json'', File sample_document)]\<rparr>),
      trace = []\<rparr>"

text \<open>
  A history file whose newest record says "running", and one with 101 records; neither
  was written by \<open>saveHistory\<close>, both are documents \<^verbatim>\<open>json.Unmarshal\<close> accepts.
\<close>

definition stale_document :: string where
  \<open>stale_document =
     ''[{"id":"20240309-070500","start_time":"2024-03-09T07:05:00Z",'' @
     ''"end_time":"0001-01-01T00:00:00Z","status":"running","exit_code":0,'' @
     ''"log_file":"backup-20240309-070500.log"}]''\<close>

definition stale_lib :: json where
  "stale_lib = json_table [([sample_run], stale_document)]"

definition stale_world :: world where
  "stale_world =
     \<lparr>dirs = (\<lambda>d. \<lparr>present = False, can_mkdir = True, entries = []\<rparr>)
        (''./logs'' := \<lparr>present = True, can_mkdir = True,
           entries = [(''history.json'', File stale_document)]\<rparr>),
      trace = []\<rparr>"

definition long_document :: string where
  \<open>long_document =
     ''['' @ concat (replicate 100 (''{"id":"20240309-070500","start_time":"2024-03-09T07:05:00Z",'' @
       ''"end_time":"2024-03-09T07:05:00.75Z","duration":"0s","status":"success","exit_code":0,'' @
       ''"log_file":"backup-20240309-070500.log","summary":"completed successfully"},'')) @
     ''{"id":"20240309-070500","start_time":"2024-03-09T07:05:00Z",'' @
       ''"end_time":"2024-03-09T07:05:00.75Z","duration":"0s","status":"success","exit_code":0,'' @
       ''"log_file":"backup-20240309-070500.log","summary":"completed successfully"}]''\<close>

definition long_lib :: json where
  "long_lib = json_table [(replicate 101 sample_done, long_document)]"

definition long_world :: world where
  "long_world =
     \<lparr>dirs = (\<lambda>d. \<lparr>present = False, can_mkdir = True, entries = []\<rparr>)
        (''./logs'' := \<lparr>present = True, can_mkdir = True,
           entries = [(''history.json'', File long_document)]\<rparr>),
      trace = []\<rparr>"

text \<open>A log directory whose history file is not a JSON document.\<close>

definition garbled_world :: world where
  "garbled_world =
     \<lparr>dirs = (\<lambda>d. \<lparr>present = False, can_mkdir = True, entries = []\<rparr>)
        (''./logs'' := \<lparr>present = True, can_mkdir = True,
           entries = [(''history.json'', File ''{{{not a history'')]\<rparr>),
      trace = []\<rparr>"

text \<open>
  A log directory with five transcripts, the history file, a settings file and a
  subdirectory whose name looks like a transcript's, listed in no particular order.
\<close>

definition five_world :: world where
  "five_world =
     \<lparr>dirs = (\<lambda>d. \<lparr>present = False, can_mkdir = True, entries = []\<rparr>)
        (''./logs'' := \<lparr>present = True, can_mkdir = True,
           entries = [(''backup-20240309-070500.log'', File ''fifth''),
                      (''history.json'', File sample_document),
                      (''backup-20240305-070500.log'', File ''first''),
                      (''backup-20240307-070500.log'', File ''third''),
                      (''backup-archive.log'', Dir),
                      (''backup-20240306-070500.log'', File ''second''),
                      (''backup-20240308-070500.log'', File ''fourth''),
                      (''settings.json'', File ''{}'')]\<rparr>),
      trace = []\<rparr>"

text \<open>
  Clock readings as \<^verbatim>\<open>time.Now()\<close> gives them have their civil fields in range, and two
  readings fall in the same second of local time when those fields agree. The number a
  string of decimal digits denotes serves to tell formatted fields apart.
\<close>

definition valid_clock :: "Time \<Rightarrow> bool" where
  "valid_clock t =
     (0 \<le> t_year t \<and> t_year t \<le> 9999 \<and> 1 \<le> t_month t \<and> t_month t \<le> 12 \<and>
      1 \<le> t_day t \<and> t_day t \<le> 31 \<and> 0 \<le> t_hour t \<and> t_hour t \<le> 23 \<and>
      0 \<le> t_minute t \<and> t_minute t \<le> 59 \<and> 0 \<le> t_second t \<and> t_second t \<le> 59)"

definition same_second :: "Time \<Rightarrow> Time \<Rightarrow> bool" where
  "same_second t u =
     (t_year t = t_year u \<and> t_month t = t_month u \<and> t_day t = t_day u \<and>
      t_hour t = t_hour u \<and> t_minute t = t_minute u \<and> t_second t = t_second u)"

definition digits_value :: "string \<Rightarrow> nat" where
  "digits_value s = foldl (\<lambda>a c. 10 * a + (of_char c - 48)) 0 s"

definition sample_next :: Time where
  "sample_next = sample_time\<lparr>t_second := 1, t_nano := 1709967901000000000\<rparr>"

text \<open>A log directory with three transcripts and the history file.\<close>

definition three_world :: world where
  "three_world =
     \<lparr>dirs = (\<lambda>d. \<lparr>present = False, can_mkdir = True, entries = []\<rparr>)
        (''./logs'' := \<lparr>present = True, can_mkdir = True,
           entries = [(''backup-20240307-070500.log'', File ''third''),
                      (''history.json'', File sample_document),
                      (''backup-20240305-070500.log'', File ''first''),
                      (''backup-20240306-070500.log'', File ''second'')]\<rparr>),
      trace = []\<rparr>"

section \<open>Starting a run\<close>

lemmas Status_defs =
  StatusIdle_def StatusRunning_def StatusSuccess_def StatusWarning_def StatusFailed_def

lemma digit_char_values:
  "digit_char 0 = CHR ''0''" "digit_char 1 = CHR ''1''" "digit_char 2 = CHR ''2''"
  "digit_char 3 = CHR ''3''" "digit_char 4 = CHR ''4''" "digit_char 5 = CHR ''5''"
  "digit_char 6 = CHR ''6''" "digit_char 7 = CHR ''7''" "digit_char 8 = CHR ''8''"
  "digit_char 9 = CHR ''9''" "digit_char (Suc 0) = CHR ''1''"
  by code_simp+

lemmas decimal_simps = itoa_nat.simps digit_char_values fmt_d_def appendInt_def

lemma Format_runID_sample: "Format_runID sample_time = ''20240309-070500''"
  by (simp add: Format_runID_def sample_time_def decimal_simps)

text \<open>
  C2. While the status is running, \<open>Run\<close> returns the error "backup already in progress"
  and the state it returns is the state it was given. Otherwise it returns no error, the
  status becomes running, the history is untouched and the current run is a new record:
  running, named by the first clock reading, started at the second, with the transcript
  name \<^verbatim>\<open>backup-<id>.log\<close> and every other field at its zero value.
\<close>

theorem Run_busy_or_starts:
  "(status ex = StatusRunning \<longrightarrow>
      Run cfg now1 now2 ex = (Inl (Error ''backup already in progress''), ex)) \<and>
   (status ex \<noteq> StatusRunning \<longrightarrow>
      (\<exists>run. Run cfg now1 now2 ex =
               (Inr (run, filepath_Join (LogDir cfg) (LogFile run)),
                ex\<lparr>status := StatusRunning, current := Some run\<rparr>) \<and>
             Status run = StatusRunning \<and> ID run = Format_runID now1 \<and>
             StartTime run = now2 \<and> LogFile run = ''backup-'' @ ID run @ ''.log'' \<and>
             EndTime run = zeroTime \<and> ExitCode run = 0 \<and> Duration run = [] \<and>
             Summary run = []))"
proof (cases "status ex = StatusRunning")
  case True
  then show ?thesis by (simp add: Run_def)
next
  case False
  then show ?thesis by (simp add: Run_def Let_def)
qed

theorem Run_busy_or_starts_witness:
  "Run sample_cfg sample_later sample_time busy_executor =
     (Inl (Error ''backup already in progress''), busy_executor) \<and>
   Run sample_cfg sample_time sample_later idle_executor =
     (Inr (sample_run\<lparr>StartTime := sample_later\<rparr>, (''./logs'', ''backup-20240309-070500.log'')),
      \<lparr>status = StatusRunning, current = Some (sample_run\<lparr>StartTime := sample_later\<rparr>), history = []\<rparr>)"
proof -
  have busy: "status busy_executor = StatusRunning"
    by (simp add: busy_executor_def)
  have idle: "status idle_executor \<noteq> StatusRunning"
    by (simp add: idle_executor_def Status_defs)
  from Run_busy_or_starts [of busy_executor sample_cfg sample_later sample_time] busy
  have first: "Run sample_cfg sample_later sample_time busy_executor =
      (Inl (Error ''backup already in progress''), busy_executor)"
    by blast
  from Run_busy_or_starts [of idle_executor sample_cfg sample_time sample_later] idle
  obtain run where run:
    "Run sample_cfg sample_time sample_later idle_executor =
       (Inr (run, filepath_Join (LogDir sample_cfg) (LogFile run)),
        idle_executor\<lparr>status := StatusRunning, current := Some run\<rparr>)"
    "Status run = StatusRunning" "ID run = Format_runID sample_time"
    "StartTime run = sample_later" "LogFile run = ''backup-'' @ ID run @ ''.log''"
    "EndTime run = zeroTime" "ExitCode run = 0" "Duration run = []" "Summary run = []"
    by blast
  have "run = sample_run\<lparr>StartTime := sample_later\<rparr>"
    using run(2-9) by (simp add: sample_run_def Format_runID_sample)
  with run(1) have "Run sample_cfg sample_time sample_later idle_executor =
     (Inr (sample_run\<lparr>StartTime := sample_later\<rparr>, (''./logs'', ''backup-20240309-070500.log'')),
      \<lparr>status = StatusRunning, current = Some (sample_run\<lparr>StartTime := sample_later\<rparr>), history = []\<rparr>)"
    by (simp add: filepath_Join_def sample_cfg_def sample_run_def idle_executor_def)
  with first show ?thesis by simp
qed

section \<open>Completing a run\<close>

lemma finishRun_fst:
  "fst (finishRun lib cfg run exitCode summary now s) =
     \<lparr>status = (if exitCode = 0 then StatusSuccess
                else if isPartialTransfer exitCode then StatusWarning else StatusFailed),
      current = None,
      history = take 100 (run\<lparr>EndTime := now,
          Duration := Duration_String (Duration_Truncate (Time_Sub now (StartTime run)) Second),
          ExitCode := exitCode, Summary := summary,
          Status := (if exitCode = 0 then StatusSuccess
                     else if isPartialTransfer exitCode then StatusWarning else StatusFailed)\<rparr>
          # history (fst s))\<rparr>"
  by (simp add: finishRun_def Let_def)














lemma trace_os_MkdirAll: "trace (snd (os_MkdirAll d w)) = trace w @ [EvMkdirAll d]"
  by (simp add: os_MkdirAll_def Let_def emit_def)

lemma trace_set_entries: "trace (set_entries d es w) = trace w"
  by (simp add: set_entries_def)

lemma trace_os_Create: "trace (snd (os_Create p w)) = trace w @ [EvCreate p]"
  by (simp add: os_Create_def Let_def emit_def trace_set_entries)

lemma trace_os_WriteFile: "trace (snd (os_WriteFile p data w)) = trace w @ [EvWriteFile p data]"
  by (simp add: os_WriteFile_def Let_def emit_def trace_set_entries)

lemma trace_saveHistory:
  "trace (saveHistory lib cfg ex w) =
     trace w @ (case MarshalIndent lib (history ex) of None \<Rightarrow> []
                | Some data \<Rightarrow> [EvWriteFile (historyPath cfg) data])"
  by (simp add: saveHistory_def trace_os_WriteFile split: option.splits)

lemma finishRun_snd:
  "snd (finishRun lib cfg run exitCode summary now s) =
     saveHistory lib cfg (fst (finishRun lib cfg run exitCode summary now s)) (snd s)"
  by (simp add: finishRun_def Let_def)

text \<open>
  C9. When the transcript file cannot be created, \<open>execute\<close> returns (the process goes
  on): it is exactly \<open>finishRun\<close> with exit code 1 and the summary "failed to create log
  file". The executor's status is failed, no run is current, the completed record, failed
  with code 1 and that summary, is at the head of the history, and the calls made are
  \<^verbatim>\<open>MkdirAll\<close>, \<^verbatim>\<open>Create\<close> and the write of the history: the external program is
  not invoked and the transcripts are not pruned.
\<close>

theorem create_failure_recorded:
  assumes failed: "\<not> fst (os_Create logPath (snd (os_MkdirAll (LogDir cfg) w)))"
  shows
    "(let res = finishRun lib cfg run 1 ''failed to create log file'' (now_finish env)
                  (ex, snd (os_Create logPath (snd (os_MkdirAll (LogDir cfg) w))));
          r = run\<lparr>EndTime := now_finish env,
                  Duration := Duration_String
                    (Duration_Truncate (Time_Sub (now_finish env) (StartTime run)) Second),
                  ExitCode := 1, Summary := ''failed to create log file'',
                  Status := StatusFailed\<rparr>
      in execute lib cfg env run logPath (ex, w) = Inr res \<and>
         status (fst res) = StatusFailed \<and> current (fst res) = None \<and>
         history (fst res) = take 100 (r # history ex) \<and>
         trace (snd res) = trace w @ [EvMkdirAll (LogDir cfg), EvCreate logPath] @
           (case MarshalIndent lib (history (fst res)) of None \<Rightarrow> []
            | Some data \<Rightarrow> [EvWriteFile (historyPath cfg) data]))"
proof -
  let ?w1 = "snd (os_Create logPath (snd (os_MkdirAll (LogDir cfg) w)))"
  let ?res = "finishRun lib cfg run 1 ''failed to create log file'' (now_finish env) (ex, ?w1)"
  have exec: "execute lib cfg env run logPath (ex, w) = Inr ?res"
    using failed by (cases "os_Create logPath (snd (os_MkdirAll (LogDir cfg) w))")
      (simp add: execute_def)
  have st: "fst ?res = \<lparr>status = StatusFailed, current = None,
       history = take 100 (run\<lparr>EndTime := now_finish env,
             Duration := Duration_String
               (Duration_Truncate (Time_Sub (now_finish env) (StartTime run)) Second),
             ExitCode := 1, Summary := ''failed to create log file'', Status := StatusFailed\<rparr>
           # history ex)\<rparr>"
    by (simp add: finishRun_fst isPartialTransfer_def)
  have tr: "trace (snd ?res) = trace w @ [EvMkdirAll (LogDir cfg), EvCreate logPath] @
       (case MarshalIndent lib (history (fst ?res)) of None \<Rightarrow> []
        | Some data \<Rightarrow> [EvWriteFile (historyPath cfg) data])"
    by (simp add: finishRun_snd trace_saveHistory trace_os_Create trace_os_MkdirAll)
  from st have "status (fst ?res) = StatusFailed" "current (fst ?res) = None"
    "history (fst ?res) = take 100 (run\<lparr>EndTime := now_finish env,
             Duration := Duration_String
               (Duration_Truncate (Time_Sub (now_finish env) (StartTime run)) Second),
             ExitCode := 1, Summary := ''failed to create log file'', Status := StatusFailed\<rparr>
           # history ex)"
    by simp_all
  with exec tr show ?thesis
    unfolding Let_def by blast
qed


lemma sample_duration:
  "Duration_String (Duration_Truncate (Time_Sub sample_later sample_time) Second) = ''0s''"
  by (simp add: Duration_String_def Duration_Truncate_def Time_Sub_def Second_def
        sample_later_def sample_time_def maxDuration_def minDuration_def signed_modulo_int_def)

theorem create_failure_recorded_witness:
  "\<exists>w'. execute sample_lib sample_cfg sample_env sample_run (''./logs'', LogFile sample_run)
       (busy_executor, locked_world) =
       Inr (\<lparr>status = StatusFailed, current = None, history = [sample_failed]\<rparr>, w') \<and>
     trace w' = [EvMkdirAll ''./logs'', EvCreate (''./logs'', ''backup-20240309-070500.log''),
                 EvWriteFile (''./logs'', ''history.json'') sample_failed_document]"
proof -
  let ?p = "(''./logs'', LogFile sample_run)"
  have failed: "\<not> fst (os_Create ?p (snd (os_MkdirAll (LogDir sample_cfg) locked_world)))"
    by (simp add: os_Create_def os_MkdirAll_def Let_def emit_def locked_world_def)
  have completed: "sample_run\<lparr>EndTime := now_finish sample_env,
        Duration := Duration_String
          (Duration_Truncate (Time_Sub (now_finish sample_env) (StartTime sample_run)) Second),
        ExitCode := 1, Summary := ''failed to create log file'', Status := StatusFailed\<rparr> =
      sample_failed"
    by (simp add: sample_failed_def sample_env_def sample_run_def sample_duration)
  have marshal: "MarshalIndent sample_lib [sample_failed] = Some sample_failed_document"
    by (simp add: sample_lib_def json_table_def sample_failed_def sample_done_def sample_run_def)
  let ?res = "finishRun sample_lib sample_cfg sample_run 1 ''failed to create log file''
      (now_finish sample_env)
      (busy_executor, snd (os_Create ?p (snd (os_MkdirAll (LogDir sample_cfg) locked_world))))"
  from create_failure_recorded [OF failed, of sample_lib sample_run sample_env busy_executor]
  have exec: "execute sample_lib sample_cfg sample_env sample_run ?p (busy_executor, locked_world) =
      Inr ?res"
    and st: "status (fst ?res) = StatusFailed" "current (fst ?res) = None"
    and hist: "history (fst ?res) = [sample_failed]"
    and tr: "trace (snd ?res) = trace locked_world @ [EvMkdirAll (LogDir sample_cfg), EvCreate ?p] @
       (case MarshalIndent sample_lib (history (fst ?res)) of None \<Rightarrow> []
        | Some data \<Rightarrow> [EvWriteFile (historyPath sample_cfg) data])"
    unfolding Let_def completed by (simp_all add: busy_executor_def)
  from st hist have "fst ?res = \<lparr>status = StatusFailed, current = None, history = [sample_failed]\<rparr>"
    by (cases "fst ?res") simp
  moreover from tr have "trace (snd ?res) =
      [EvMkdirAll ''./logs'', EvCreate (''./logs'', ''backup-20240309-070500.log''),
       EvWriteFile (''./logs'', ''history.json'') sample_failed_document]"
    unfolding hist marshal
    by (simp add: locked_world_def sample_cfg_def sample_run_def historyPath_def filepath_Join_def)
  ultimately show ?thesis
    using exec by (intro exI [of _ "snd ?res"]) (simp add: prod_eq_iff)
qed

section \<open>Loading and persisting the history\<close>

lemma lookup_emit: "lookup (emit e w) p = lookup w p"
  by (simp add: lookup_def emit_def)

lemma os_ReadFile_fst:
  "fst (os_ReadFile p w) = (case lookup w p of Some (File c) \<Rightarrow> Some c | _ \<Rightarrow> None)"
  by (simp add: os_ReadFile_def split: option.splits node.splits)

lemma os_ReadFile_snd: "snd (os_ReadFile p w) = emit (EvReadFile p) w"
  by (simp add: os_ReadFile_def split: option.splits node.splits)

lemma NewBackupExecutor_fst:
  "fst (NewBackupExecutor lib cfg w) =
     (case lookup w (historyPath cfg) of
        Some (File data) \<Rightarrow>
          (case Unmarshal lib data of
             Some runs \<Rightarrow> \<lparr>status = (if runs = [] then StatusIdle else Status (runs ! 0)),
                            current = None, history = runs\<rparr>
           | None \<Rightarrow> \<lparr>status = StatusIdle, current = None, history = []\<rparr>)
      | _ \<Rightarrow> \<lparr>status = StatusIdle, current = None, history = []\<rparr>)"
  by (simp add: NewBackupExecutor_def loadHistory_def os_ReadFile_def
        split: option.splits node.splits)

lemma NewBackupExecutor_snd:
  "snd (NewBackupExecutor lib cfg w) = emit (EvReadFile (historyPath cfg)) w"
  by (simp add: NewBackupExecutor_def loadHistory_def os_ReadFile_def
        split: option.splits node.splits)

lemma lookup_os_WriteFile:
  assumes "present (dirs w (fst p))" and "lookup w p \<noteq> Some Dir"
  shows "lookup (snd (os_WriteFile p data w)) p = Some (File data)"
  using assms
  by (simp add: os_WriteFile_def Let_def lookup_def set_entries_def emit_def update_conv')


section \<open>The single-flight invariant\<close>

lemma single_flight_Run: "single_flight ex \<Longrightarrow> single_flight (snd (Run cfg now1 now2 ex))"
  by (simp add: single_flight_def Run_def Let_def ex_Current_def ex_Status_def
        split: option.splits)

lemma single_flight_finishRun:
  "single_flight (fst (finishRun lib cfg run exitCode summary now s))"
  by (simp add: single_flight_def finishRun_fst ex_Current_def ex_Status_def Status_defs)

lemma single_flight_step:
  "single_flight (fst s) \<Longrightarrow> single_flight (fst (step lib cfg s operation))"
  by (cases operation) (simp_all add: single_flight_Run single_flight_finishRun)

lemma single_flight_steps:
  "single_flight (fst s) \<Longrightarrow> single_flight (fst (foldl (step lib cfg) s ops))"
  by (induction ops arbitrary: s) (simp_all add: single_flight_step)

lemma single_flight_loaded:
  "single_flight (fst (NewBackupExecutor lib cfg w)) =
     (ex_Status (fst (NewBackupExecutor lib cfg w)) \<noteq> StatusRunning)"
  by (simp add: single_flight_def NewBackupExecutor_fst ex_Current_def ex_Status_def
        split: option.splits node.splits)

text \<open>
  Every history that \<open>finishRun\<close> persists has a completed record at its head: the records
  the executor writes never say "running".
\<close>

lemma finishRun_head_completed:
  "Status (history (fst (finishRun lib cfg run exitCode summary now s)) ! 0) \<in>
     {StatusSuccess, StatusWarning, StatusFailed}"
  by (simp add: finishRun_fst)

text \<open>
  C1, as the code has it. \<open>loadHistory\<close> copies the status of the newest record of the
  file without looking at it, so the invariant holds after construction exactly when that
  status is not "running". Provided the history file is absent, unreadable, malformed,
  empty, or its newest record is not marked running (as is every record \<open>finishRun\<close>
  persists), the invariant holds at construction and after every sequence of \<open>Run\<close>,
  \<open>finishRun\<close> and reader calls.
\<close>

theorem single_flight_invariant:
  assumes "\<forall>data runs. lookup w (historyPath cfg) = Some (File data) \<and>
             Unmarshal lib data = Some runs \<and> runs \<noteq> [] \<longrightarrow> Status (runs ! 0) \<noteq> StatusRunning"
  shows "single_flight (fst (foldl (step lib cfg) (NewBackupExecutor lib cfg w) ops))"
proof (rule single_flight_steps)
  have "ex_Status (fst (NewBackupExecutor lib cfg w)) \<noteq> StatusRunning"
    using assms
    by (auto simp: NewBackupExecutor_fst ex_Status_def Status_defs
          split: option.splits node.splits)
  then show "single_flight (fst (NewBackupExecutor lib cfg w))"
    by (simp add: single_flight_loaded)
qed

lemma lookup_used_world:
  "lookup used_world (historyPath sample_cfg) = Some (File sample_document)"
  by (simp add: lookup_def used_world_def historyPath_def filepath_Join_def sample_cfg_def)

lemma Unmarshal_sample_lib:
  "Unmarshal sample_lib data = Some runs \<Longrightarrow> runs = [sample_done] \<or> runs = [sample_failed]"
  by (auto simp: sample_lib_def json_table_def split: if_splits)

theorem single_flight_invariant_witness:
  "single_flight (fst (foldl (step sample_lib sample_cfg)
       (NewBackupExecutor sample_lib sample_cfg used_world)
       [OpStatus, OpRun sample_time sample_later, OpCurrent, OpRun sample_later sample_later,
        OpFinish (sample_run\<lparr>StartTime := sample_later\<rparr>) 23 (rsyncExitSummary 23) sample_later,
        OpHistory, OpLastRun])) \<and>
   ex_Status (fst (NewBackupExecutor sample_lib sample_cfg used_world)) = StatusSuccess"
proof -
  have "\<forall>data runs. lookup used_world (historyPath sample_cfg) = Some (File data) \<and>
          Unmarshal sample_lib data = Some runs \<and> runs \<noteq> [] \<longrightarrow>
          Status (runs ! 0) \<noteq> StatusRunning"
    by (auto dest!: Unmarshal_sample_lib simp: sample_done_def sample_failed_def Status_defs)
  from single_flight_invariant [OF this]
  have "single_flight (fst (foldl (step sample_lib sample_cfg)
       (NewBackupExecutor sample_lib sample_cfg used_world)
       [OpStatus, OpRun sample_time sample_later, OpCurrent, OpRun sample_later sample_later,
        OpFinish (sample_run\<lparr>StartTime := sample_later\<rparr>) 23 (rsyncExitSummary 23) sample_later,
        OpHistory, OpLastRun]))" .
  moreover have "ex_Status (fst (NewBackupExecutor sample_lib sample_cfg used_world)) = StatusSuccess"
    by (simp add: NewBackupExecutor_fst lookup_used_world ex_Status_def sample_lib_def
          json_table_def sample_done_def)
  ultimately show ?thesis by simp
qed

text \<open>
  The claim as it is written fails at construction: with a history file whose newest
  record is marked running, the new executor reports the status running and no current
  run (and every later \<open>Run\<close> is refused).
\<close>

theorem single_flight_counterexample:
  "ex_Status (fst (NewBackupExecutor stale_lib sample_cfg stale_world)) = StatusRunning \<and>
   ex_Current (fst (NewBackupExecutor stale_lib sample_cfg stale_world)) = None \<and>
   \<not> single_flight (fst (NewBackupExecutor stale_lib sample_cfg stale_world)) \<and>
   fst (Run sample_cfg sample_time sample_later
          (fst (NewBackupExecutor stale_lib sample_cfg stale_world))) =
     Inl (Error ''backup already in progress'')"
proof -
  have on_disk: "lookup stale_world (historyPath sample_cfg) = Some (File stale_document)"
    by (simp add: lookup_def stale_world_def historyPath_def filepath_Join_def sample_cfg_def)
  have loaded: "fst (NewBackupExecutor stale_lib sample_cfg stale_world) =
      \<lparr>status = StatusRunning, current = None, history = [sample_run]\<rparr>"
    by (simp add: NewBackupExecutor_fst on_disk stale_lib_def json_table_def sample_run_def)
  show ?thesis
    unfolding loaded by (simp add: single_flight_def ex_Status_def ex_Current_def Run_def)
qed

section \<open>The bounded history\<close>

lemma history_Run: "history (snd (Run cfg now1 now2 ex)) = history ex"
  by (simp add: Run_def Let_def)

lemma history_length_steps:
  "length (history (fst s)) \<le> 100 \<Longrightarrow>
   length (history (fst (foldl (step lib cfg) s ops))) \<le> 100"
proof (induction ops arbitrary: s)
  case Nil
  then show ?case by simp
next
  case (Cons operation ops)
  have "length (history (fst (step lib cfg s operation))) \<le> 100"
    using Cons.prems by (cases operation) (simp_all add: history_Run finishRun_fst)
  then show ?case
    using Cons.IH by simp
qed

text \<open>
  C4, as the code has it. \<open>finishRun\<close> puts the completed record in front of the history
  and keeps the first 100 records of the result, whatever the length was before: the new
  history is a prefix of the old one with the new record in front, so only the oldest
  records are dropped and the order of the rest is kept, and its length is at most 100.
  \<open>Run\<close> and the readers leave the history alone, so a bound of 100 is kept by every
  sequence of operations. \<open>loadHistory\<close> takes the records of the file as they are, with
  no cap.
\<close>

theorem history_prepend_and_cap:
  "(let r = run\<lparr>EndTime := now,
              Duration := Duration_String (Duration_Truncate (Time_Sub now (StartTime run)) Second),
              ExitCode := exitCode, Summary := summary,
              Status := (if exitCode = 0 then StatusSuccess
                         else if isPartialTransfer exitCode then StatusWarning
                         else StatusFailed)\<rparr>;
        ex' = fst (finishRun lib cfg run exitCode summary now s)
    in history ex' = take 100 (r # history (fst s)) \<and> length (history ex') \<le> 100 \<and>
       ex_LastRun ex' = Some r) \<and>
   history (snd (Run cfg now1 now2 ex)) = history ex \<and>
   (length (history (fst s)) \<le> 100 \<longrightarrow>
      length (history (fst (foldl (step lib cfg) s ops))) \<le> 100) \<and>
   (\<forall>data runs. lookup w (historyPath cfg) = Some (File data) \<and> Unmarshal lib data = Some runs \<longrightarrow>
      history (fst (NewBackupExecutor lib cfg w)) = runs)"
proof -
  let ?r = "run\<lparr>EndTime := now,
              Duration := Duration_String (Duration_Truncate (Time_Sub now (StartTime run)) Second),
              ExitCode := exitCode, Summary := summary,
              Status := (if exitCode = 0 then StatusSuccess
                         else if isPartialTransfer exitCode then StatusWarning
                         else StatusFailed)\<rparr>"
  let ?ex' = "fst (finishRun lib cfg run exitCode summary now s)"
  have prepend: "history ?ex' = take 100 (?r # history (fst s))"
    by (simp add: finishRun_fst)
  then have bound: "length (history ?ex') \<le> 100"
    by simp
  have newest: "ex_LastRun ?ex' = Some ?r"
    by (simp add: ex_LastRun_def finishRun_fst)
  have start: "history (snd (Run cfg now1 now2 ex)) = history ex"
    by (rule history_Run)
  have load: "history (fst (NewBackupExecutor lib cfg w)) = runs"
    if "lookup w (historyPath cfg) = Some (File data)" "Unmarshal lib data = Some runs"
    for data runs
    using that by (simp add: NewBackupExecutor_fst)
  from prepend bound newest start load history_length_steps [of s lib cfg ops]
  show ?thesis
    unfolding Let_def by blast
qed

theorem history_prepend_and_cap_witness:
  "history (fst (finishRun sample_lib sample_cfg sample_run 1 ''failed to create log file''
       sample_later
       (\<lparr>status = StatusRunning, current = Some sample_run,
          history = replicate 99 sample_done @ [sample_done\<lparr>ID := ''20240308-070500''\<rparr>]\<rparr>,
        used_world))) =
     sample_failed # replicate 99 sample_done \<and>
   history (fst (NewBackupExecutor sample_lib sample_cfg used_world)) = [sample_done]"
proof -
  let ?s = "(\<lparr>status = StatusRunning, current = Some sample_run,
          history = replicate 99 sample_done @ [sample_done\<lparr>ID := ''20240308-070500''\<rparr>]\<rparr>,
        used_world)"
  note main = history_prepend_and_cap [where run = sample_run and now = sample_later
      and exitCode = 1 and summary = "''failed to create log file''" and lib = sample_lib
      and cfg = sample_cfg and s = ?s and w = used_world]
  have completed: "sample_run\<lparr>EndTime := sample_later,
        Duration := Duration_String
          (Duration_Truncate (Time_Sub sample_later (StartTime sample_run)) Second),
        ExitCode := 1, Summary := ''failed to create log file'',
        Status := (if (1::int) = 0 then StatusSuccess
                   else if isPartialTransfer 1 then StatusWarning else StatusFailed)\<rparr> =
      sample_failed"
    by (simp add: sample_failed_def sample_run_def sample_duration isPartialTransfer_def)
  from main have "history (fst (finishRun sample_lib sample_cfg sample_run 1
        ''failed to create log file'' sample_later ?s)) =
      take 100 (sample_failed # history (fst ?s))"
    unfolding Let_def completed by blast
  then have first: "history (fst (finishRun sample_lib sample_cfg sample_run 1
        ''failed to create log file'' sample_later ?s)) = sample_failed # replicate 99 sample_done"
    by simp
  have "Unmarshal sample_lib sample_document = Some [sample_done]"
    by (simp add: sample_lib_def json_table_def)
  with main lookup_used_world
  have "history (fst (NewBackupExecutor sample_lib sample_cfg used_world)) = [sample_done]"
    by blast
  with first show ?thesis by simp
qed

text \<open>
  The claim as it is written fails for the load at startup: a history file with 101 records
  gives an executor whose \<open>History()\<close> has 101 records.
\<close>

theorem history_cap_counterexample:
  "length (ex_History (fst (NewBackupExecutor long_lib sample_cfg long_world))) = 101"
proof -
  have on_disk: "lookup long_world (historyPath sample_cfg) = Some (File long_document)"
    by (simp add: lookup_def long_world_def historyPath_def filepath_Join_def sample_cfg_def)
  have "history (fst (NewBackupExecutor long_lib sample_cfg long_world)) = replicate 101 sample_done"
    by (simp add: NewBackupExecutor_fst on_disk long_lib_def json_table_def)
  then show ?thesis
    by (simp add: ex_History_def)
qed

lemma lookup_saveHistory:
  assumes "MarshalIndent lib (history ex) = Some data"
      and "present (dirs w (LogDir cfg))" and "lookup w (historyPath cfg) \<noteq> Some Dir"
  shows "lookup (saveHistory lib cfg ex w) (historyPath cfg) = Some (File data)"
  using assms by (simp add: saveHistory_def lookup_os_WriteFile historyPath_def filepath_Join_def)

text \<open>
  C5. \<open>saveHistory\<close> writes the marshalled history to \<^verbatim>\<open>history.json\<close> in the log
  directory and a new executor reads that file back. Whenever the library unmarshals the
  document to the history it was made from and the write succeeds (the directory is there
  and \<^verbatim>\<open>history.json\<close> is not itself a directory), the new executor's history is the
  saved history, record for record and in order, its status is the status of the first
  record (idle for an empty history) and it has no current run. When there is no such
  file, or its content does not unmarshal, the new executor has an empty history and the
  status idle.
\<close>

theorem history_round_trip:
  "(MarshalIndent lib (history ex) = Some data \<and> Unmarshal lib data = Some (history ex) \<and>
    present (dirs w (LogDir cfg)) \<and> lookup w (historyPath cfg) \<noteq> Some Dir \<longrightarrow>
      (let ex2 = fst (NewBackupExecutor lib cfg (saveHistory lib cfg ex w))
       in ex_History ex2 = history ex \<and>
          ex_Status ex2 = (if history ex = [] then StatusIdle else Status (history ex ! 0)) \<and>
          ex_Current ex2 = None)) \<and>
   ((\<forall>data. lookup w (historyPath cfg) \<noteq> Some (File data)) \<longrightarrow>
      fst (NewBackupExecutor lib cfg w) = \<lparr>status = StatusIdle, current = None, history = []\<rparr>) \<and>
   (\<forall>data. lookup w (historyPath cfg) = Some (File data) \<and> Unmarshal lib data = None \<longrightarrow>
      fst (NewBackupExecutor lib cfg w) = \<lparr>status = StatusIdle, current = None, history = []\<rparr>)"
proof (intro conjI impI allI)
  assume saved: "MarshalIndent lib (history ex) = Some data \<and>
    Unmarshal lib data = Some (history ex) \<and>
    present (dirs w (LogDir cfg)) \<and> lookup w (historyPath cfg) \<noteq> Some Dir"
  then have "lookup (saveHistory lib cfg ex w) (historyPath cfg) = Some (File data)"
    by (simp add: lookup_saveHistory)
  with saved have "fst (NewBackupExecutor lib cfg (saveHistory lib cfg ex w)) =
      \<lparr>status = (if history ex = [] then StatusIdle else Status (history ex ! 0)),
       current = None, history = history ex\<rparr>"
    by (simp add: NewBackupExecutor_fst)
  then show "let ex2 = fst (NewBackupExecutor lib cfg (saveHistory lib cfg ex w))
       in ex_History ex2 = history ex \<and>
          ex_Status ex2 = (if history ex = [] then StatusIdle else Status (history ex ! 0)) \<and>
          ex_Current ex2 = None"
    by (simp add: Let_def ex_History_def ex_Status_def ex_Current_def)
next
  assume "\<forall>data. lookup w (historyPath cfg) \<noteq> Some (File data)"
  then show "fst (NewBackupExecutor lib cfg w) = \<lparr>status = StatusIdle, current = None, history = []\<rparr>"
    by (simp add: NewBackupExecutor_fst split: option.splits node.splits)
next
  fix data
  assume "lookup w (historyPath cfg) = Some (File data) \<and> Unmarshal lib data = None"
  then show "fst (NewBackupExecutor lib cfg w) = \<lparr>status = StatusIdle, current = None, history = []\<rparr>"
    by (simp add: NewBackupExecutor_fst)
qed

theorem history_round_trip_witness:
  "fst (NewBackupExecutor sample_lib sample_cfg
      (saveHistory sample_lib sample_cfg
         \<lparr>status = StatusFailed, current = None, history = [sample_failed]\<rparr> used_world)) =
     \<lparr>status = StatusFailed, current = None, history = [sample_failed]\<rparr> \<and>
   fst (NewBackupExecutor sample_lib sample_cfg fresh_world) = idle_executor \<and>
   fst (NewBackupExecutor sample_lib sample_cfg garbled_world) = idle_executor"
proof -
  let ?ex = "\<lparr>status = StatusFailed, current = None, history = [sample_failed]\<rparr>"
  let ?ex2 = "fst (NewBackupExecutor sample_lib sample_cfg (saveHistory sample_lib sample_cfg ?ex used_world))"
  have marshal: "MarshalIndent sample_lib (history ?ex) = Some sample_failed_document"
    by (simp add: sample_lib_def json_table_def sample_failed_def sample_done_def sample_run_def)
  have unmarshal: "Unmarshal sample_lib sample_failed_document = Some (history ?ex)"
    by (simp add: sample_lib_def json_table_def sample_failed_document_def sample_document_def)
  have dir: "present (dirs used_world (LogDir sample_cfg))"
    by (simp add: used_world_def sample_cfg_def)
  have entry: "lookup used_world (historyPath sample_cfg) \<noteq> Some Dir"
    by (simp add: lookup_used_world)
  note main = history_round_trip [where lib = sample_lib and cfg = sample_cfg]
  from main [of ?ex sample_failed_document used_world] marshal unmarshal dir entry
  have "ex_History ?ex2 = [sample_failed]" "ex_Status ?ex2 = StatusFailed" "ex_Current ?ex2 = None"
    by (simp_all add: Let_def sample_failed_def)
  then have first: "?ex2 = ?ex"
    by (cases ?ex2) (simp add: ex_History_def ex_Status_def ex_Current_def split: option.splits)
  have "\<forall>data. lookup fresh_world (historyPath sample_cfg) \<noteq> Some (File data)"
    by (simp add: lookup_def fresh_world_def)
  with main [of idle_executor sample_document fresh_world]
  have second: "fst (NewBackupExecutor sample_lib sample_cfg fresh_world) = idle_executor"
    by (simp add: idle_executor_def)
  have "lookup garbled_world (historyPath sample_cfg) = Some (File ''{{{not a history'')"
    by (simp add: lookup_def garbled_world_def historyPath_def filepath_Join_def sample_cfg_def)
  moreover have "Unmarshal sample_lib ''{{{not a history'' = None"
    by (simp add: sample_lib_def json_table_def sample_document_def sample_failed_document_def)
  ultimately have third: "fst (NewBackupExecutor sample_lib sample_cfg garbled_world) = idle_executor"
    using main [of idle_executor sample_document garbled_world] by (simp add: idle_executor_def)
  from first second third show ?thesis by simp
qed

section \<open>The rsync command line\<close>

lemma HasSuffix_single: "HasSuffix s [c] = (s \<noteq> [] \<and> last s = c)"
proof (cases s rule: rev_cases)
  case Nil
  then show ?thesis by (simp add: HasSuffix_def)
next
  case (snoc ys y)
  then show ?thesis by (simp add: HasSuffix_def)
qed

lemma TrimRight_split:
  "\<exists>k. s = TrimRight s [c] @ replicate k c"
proof -
  let ?P = "\<lambda>x. x \<in> set [c]"
  have "rev s = takeWhile ?P (rev s) @ dropWhile ?P (rev s)"
    by simp
  then have "s = rev (dropWhile ?P (rev s)) @ rev (takeWhile ?P (rev s))"
    by (metis rev_append rev_rev_ident)
  moreover have "\<forall>x \<in> set (rev (takeWhile ?P (rev s))). x = c"
    by (auto dest: set_takeWhileD)
  then have "rev (takeWhile ?P (rev s)) = replicate (length (rev (takeWhile ?P (rev s)))) c"
    by (metis replicate_length_same)
  ultimately show ?thesis
    unfolding TrimRight_def by metis
qed

lemma TrimRight_no_suffix: "\<not> HasSuffix (TrimRight s [c]) [c]"
proof -
  have "dropWhile (\<lambda>x. x \<in> set [c]) (rev s) = [] \<or>
        hd (dropWhile (\<lambda>x. x \<in> set [c]) (rev s)) \<noteq> c"
    using hd_dropWhile [of "\<lambda>x. x \<in> set [c]" "rev s"] by auto
  then show ?thesis
    by (auto simp: HasSuffix_single TrimRight_def last_rev)
qed

text \<open>
  C6. The argument vector starts with \<^verbatim>\<open>-avz --delete --partial --stats -e\<close> and the ssh
  command built around the configured key path; it has nine arguments with
  \<^verbatim>\<open>--bwlimit=N\<close> in seventh place when the bandwidth limit is positive, and eight
  otherwise; its last two arguments are the source and the destination. A file-mode
  source is the configured path as it is. A directory-mode source is the configured path
  without its trailing slashes, however many, followed by one slash. The destination is
  the host, a colon, and the remote path without its trailing slashes followed by one
  slash.
\<close>

theorem buildRsyncArgs_shape:
  "(let args = buildRsyncArgs cfg; n = length args;
        source = args ! (n - 2); dest = args ! (n - 1)
    in take 6 args =
         [''-avz'', ''--delete'', ''--partial'', ''--stats'', ''-e'',
          ''ssh -i '' @ SSHKeyPath cfg @
          '' -o StrictHostKeyChecking=no -o UserKnownHostsFile=/dev/null''] \<and>
       (0 < BandwidthLimit cfg \<longrightarrow>
          n = 9 \<and> args ! 6 = ''--bwlimit='' @ fmt_d (BandwidthLimit cfg)) \<and>
       (\<not> 0 < BandwidthLimit cfg \<longrightarrow> n = 8) \<and>
       (SourceIsFile cfg \<longrightarrow> source = SourcePath cfg) \<and>
       (\<not> SourceIsFile cfg \<longrightarrow>
          (\<exists>p k. SourcePath cfg = p @ replicate k (CHR ''/'') \<and> \<not> HasSuffix p ''/'' \<and>
                 source = p @ ''/'')) \<and>
       (\<exists>p k. RemotePath cfg = p @ replicate k (CHR ''/'') \<and> \<not> HasSuffix p ''/'' \<and>
              dest = RemoteHost cfg @ '':'' @ p @ ''/''))"
proof -
  obtain ks where ks: "SourcePath cfg = TrimRight (SourcePath cfg) ''/'' @ replicate ks (CHR ''/'')"
    using TrimRight_split by blast
  obtain kr where kr: "RemotePath cfg = TrimRight (RemotePath cfg) ''/'' @ replicate kr (CHR ''/'')"
    using TrimRight_split by blast
  have src: "\<exists>p k. SourcePath cfg = p @ replicate k (CHR ''/'') \<and> \<not> HasSuffix p ''/'' \<and>
      TrimRight (SourcePath cfg) ''/'' @ ''/'' = p @ ''/''"
    using ks TrimRight_no_suffix by blast
  have dst: "\<exists>p k. RemotePath cfg = p @ replicate k (CHR ''/'') \<and> \<not> HasSuffix p ''/'' \<and>
      RemoteHost cfg @ '':'' @ TrimRight (RemotePath cfg) ''/'' @ ''/'' =
      RemoteHost cfg @ '':'' @ p @ ''/''"
    using kr TrimRight_no_suffix by blast
  show ?thesis
  proof (cases "0 < BandwidthLimit cfg")
    case True
    with src dst show ?thesis
      by (simp add: buildRsyncArgs_def Let_def)
  next
    case False
    with src dst show ?thesis
      by (simp add: buildRsyncArgs_def Let_def)
  qed
qed


lemma buildRsyncArgs_sample:
  "buildRsyncArgs sample_cfg =
     [''-avz'', ''--delete'', ''--partial'', ''--stats'', ''-e'',
      ''ssh -i ~/.ssh/test_key -o StrictHostKeyChecking=no -o UserKnownHostsFile=/dev/null'',
      ''--bwlimit=5000'', ''/mnt/plex-media/'', ''user@h:/backups/x/'']"
  by (simp add: buildRsyncArgs_def sample_cfg_def TrimRight_def decimal_simps)

theorem buildRsyncArgs_shape_witness:
  "length (buildRsyncArgs sample_cfg) = 9 \<and>
   buildRsyncArgs sample_cfg ! 6 = ''--bwlimit=5000'' \<and>
   buildRsyncArgs sample_cfg ! 7 = ''/mnt/plex-media/'' \<and>
   buildRsyncArgs sample_cfg ! 8 = ''user@h:/backups/x/'' \<and>
   buildRsyncArgs (sample_cfg\<lparr>SourcePath := ''/a/b/file.tar'', SourceIsFile := True,
       BandwidthLimit := 0\<rparr>) ! 6 = ''/a/b/file.tar'' \<and>
   length (buildRsyncArgs (sample_cfg\<lparr>SourcePath := ''/a/b/file.tar'', SourceIsFile := True,
       BandwidthLimit := 0\<rparr>)) = 8"
proof -
  let ?file_cfg = "sample_cfg\<lparr>SourcePath := ''/a/b/file.tar'', SourceIsFile := True,
       BandwidthLimit := 0\<rparr>"
  have limit: "0 < BandwidthLimit sample_cfg" and no_limit: "\<not> 0 < BandwidthLimit ?file_cfg"
    and file_mode: "SourceIsFile ?file_cfg"
    by (simp_all add: sample_cfg_def)
  from buildRsyncArgs_shape [of sample_cfg] limit
  have "length (buildRsyncArgs sample_cfg) = 9"
    and "buildRsyncArgs sample_cfg ! 6 = ''--bwlimit='' @ fmt_d (BandwidthLimit sample_cfg)"
    by (simp_all add: Let_def)
  moreover have "fmt_d (BandwidthLimit sample_cfg) = ''5000''"
    by (simp add: sample_cfg_def decimal_simps)
  moreover from buildRsyncArgs_shape [of ?file_cfg] no_limit file_mode
  have "length (buildRsyncArgs ?file_cfg) = 8 \<and>
      buildRsyncArgs ?file_cfg ! (length (buildRsyncArgs ?file_cfg) - 2) = SourcePath ?file_cfg"
    unfolding Let_def by blast
  then have "length (buildRsyncArgs ?file_cfg) = 8"
    and "buildRsyncArgs ?file_cfg ! 6 = ''/a/b/file.tar''"
    by auto
  ultimately show ?thesis
    by (simp add: buildRsyncArgs_sample)
qed

section \<open>Reading a transcript\<close>

lemma HasPrefix_iff: "HasPrefix s p = (\<exists>b. s = p @ b)"
proof
  assume "HasPrefix s p"
  then have "s = p @ drop (length p) s"
    by (metis HasPrefix_def append_take_drop_id)
  then show "\<exists>b. s = p @ b" ..
next
  assume "\<exists>b. s = p @ b"
  then show "HasPrefix s p"
    by (auto simp: HasPrefix_def)
qed

lemma Contains_iff: "Contains s sub = (\<exists>a b. s = a @ sub @ b)"
proof (induction s)
  case Nil
  then show ?case by auto
next
  case (Cons c s)
  show ?case
  proof
    assume "Contains (c # s) sub"
    then consider "HasPrefix (c # s) sub" | "Contains s sub"
      by auto
    then show "\<exists>a b. c # s = a @ sub @ b"
    proof cases
      case 1
      then obtain b where "c # s = [] @ sub @ b"
        by (auto simp: HasPrefix_iff)
      then show ?thesis by blast
    next
      case 2
      with Cons.IH obtain a b where "s = a @ sub @ b"
        by blast
      then have "c # s = (c # a) @ sub @ b"
        by simp
      then show ?thesis by blast
    qed
  next
    assume "\<exists>a b. c # s = a @ sub @ b"
    then obtain a b where ab: "c # s = a @ sub @ b"
      by blast
    show "Contains (c # s) sub"
    proof (cases a)
      case Nil
      with ab have "HasPrefix (c # s) sub"
        unfolding HasPrefix_iff by auto
      then show ?thesis
        by simp
    next
      case (Cons x a')
      with ab have "s = a' @ sub @ b"
        by simp
      with Cons.IH show ?thesis
        by auto
    qed
  qed
qed

lemma Contains_char: "Contains s [c] = (c \<in> set s)"
  by (auto simp: Contains_iff in_set_conv_decomp)

text \<open>
  C7. A file name that has a slash, a backslash or two dots in a row anywhere in it is
  refused with "invalid log filename", and the world (its trace of system calls
  included) is as before: nothing is read. For every other name \<open>ReadLog\<close> makes one
  call, \<^verbatim>\<open>os.ReadFile\<close> on the entry of that name in the configured log directory, and
  returns that file's content, or the read error when there is no such file.
\<close>

theorem ReadLog_sanitizes:
  "(CHR ''/'' \<in> set filename \<or> CHR 0x5C \<in> set filename \<or> (\<exists>a b. filename = a @ ''..'' @ b) \<longrightarrow>
      ReadLog cfg filename w = (Inl (Error ''invalid log filename''), w)) \<and>
   (\<not> (CHR ''/'' \<in> set filename \<or> CHR 0x5C \<in> set filename \<or> (\<exists>a b. filename = a @ ''..'' @ b)) \<longrightarrow>
      ReadLog cfg filename w =
        (case lookup w (LogDir cfg, filename) of
           Some (File content) \<Rightarrow> Inr content
         | _ \<Rightarrow> Inl (PathError (LogDir cfg, filename)),
         w\<lparr>trace := trace w @ [EvReadFile (LogDir cfg, filename)]\<rparr>))"
proof -
  have test: "(Contains filename ''/'' \<or> Contains filename [CHR 0x5C] \<or> Contains filename ''..'') =
      (CHR ''/'' \<in> set filename \<or> CHR 0x5C \<in> set filename \<or> (\<exists>a b. filename = a @ ''..'' @ b))"
    by (simp only: Contains_char) (simp only: Contains_iff)
  show ?thesis
    unfolding test [symmetric]
    by (simp add: ReadLog_def os_ReadFile_def filepath_Join_def emit_def
          split: option.splits node.splits)
qed

theorem ReadLog_sanitizes_witness:
  "ReadLog sample_cfg ''../../etc/passwd'' used_world =
     (Inl (Error ''invalid log filename''), used_world) \<and>
   ReadLog sample_cfg ''a/../../b'' used_world =
     (Inl (Error ''invalid log filename''), used_world) \<and>
   ReadLog sample_cfg ''backup-20240309-070500.log'' used_world =
     (Inr ''sent 120 bytes\<newline>'',
      used_world\<lparr>trace := [EvReadFile (''./logs'', ''backup-20240309-070500.log'')]\<rparr>)"
proof -
  have "\<exists>a b. ''../../etc/passwd'' = a @ ''..'' @ b"
    by (intro exI [of _ "[]"] exI [of _ "''/../etc/passwd''"]) simp
  with ReadLog_sanitizes [of "''../../etc/passwd''" sample_cfg used_world]
  have first: "ReadLog sample_cfg ''../../etc/passwd'' used_world =
      (Inl (Error ''invalid log filename''), used_world)"
    by blast
  have "CHR ''/'' \<in> set ''a/../../b''"
    by simp
  with ReadLog_sanitizes [of "''a/../../b''" sample_cfg used_world]
  have second: "ReadLog sample_cfg ''a/../../b'' used_world =
      (Inl (Error ''invalid log filename''), used_world)"
    by blast
  have "\<not> Contains ''backup-20240309-070500.log'' ''/''"
    and "\<not> Contains ''backup-20240309-070500.log'' [CHR 0x5C]"
    and "\<not> Contains ''backup-20240309-070500.log'' ''..''"
    by (simp_all add: HasPrefix_def)
  then have "\<not> (CHR ''/'' \<in> set ''backup-20240309-070500.log'' \<or>
        CHR 0x5C \<in> set ''backup-20240309-070500.log'' \<or>
        (\<exists>a b. ''backup-20240309-070500.log'' = a @ ''..'' @ b))"
    by (simp only: Contains_char Contains_iff) simp
  with ReadLog_sanitizes [of "''backup-20240309-070500.log''" sample_cfg used_world]
  have "ReadLog sample_cfg ''backup-20240309-070500.log'' used_world =
      (case lookup used_world (LogDir sample_cfg, ''backup-20240309-070500.log'') of
         Some (File content) \<Rightarrow> Inr content
       | _ \<Rightarrow> Inl (PathError (LogDir sample_cfg, ''backup-20240309-070500.log'')),
       used_world\<lparr>trace := trace used_world @
         [EvReadFile (LogDir sample_cfg, ''backup-20240309-070500.log'')]\<rparr>)"
    by blast
  then have third: "ReadLog sample_cfg ''backup-20240309-070500.log'' used_world =
     (Inr ''sent 120 bytes\<newline>'',
      used_world\<lparr>trace := [EvReadFile (''./logs'', ''backup-20240309-070500.log'')]\<rparr>)"
    by (simp add: lookup_def used_world_def sample_cfg_def)
  from first second third show ?thesis by simp
qed

section \<open>Retention of transcripts\<close>

lemma map_insort_key: "map f (insort_key f x ys) = insort (f x) (map f ys)"
  by (induction ys) simp_all

lemma map_sort_key: "map f (sort_key f xs) = sort (map f xs)"
  by (induction xs) (simp_all add: map_insort_key)

lemma sort_key_twice: "sort_key f (sort_key f xs) = sort_key f xs"
  by (simp add: sort_key_id_if_sorted)

lemma filter_not_in_take:
  "distinct xs \<Longrightarrow> filter (\<lambda>x. x \<notin> set (take k xs)) xs = drop k xs"
proof (induction xs arbitrary: k)
  case Nil
  then show ?case by simp
next
  case (Cons a ys)
  show ?case
  proof (cases k)
    case 0
    then show ?thesis by simp
  next
    case (Suc j)
    have "filter (\<lambda>x. x \<noteq> a \<and> x \<notin> set (take j ys)) ys = filter (\<lambda>x. x \<notin> set (take j ys)) ys"
      using Cons.prems by (intro filter_cong) auto
    with Cons Suc show ?thesis
      by simp
  qed
qed

lemma os_Remove_dirs:
  assumes "present (dirs w d)" and "map_of (entries (dirs w d)) n \<noteq> Some Dir"
  shows "dirs (os_Remove (d, n) w) = (dirs w)(d := (dirs w d)\<lparr>entries := AList.delete n (entries (dirs w d))\<rparr>)"
proof (cases "map_of (entries (dirs w d)) n")
  case None
  then have "n \<notin> fst ` set (entries (dirs w d))"
    by (simp add: map_of_eq_None_iff)
  then have "AList.delete n (entries (dirs w d)) = entries (dirs w d)"
    by simp
  with None assms show ?thesis
    by (simp add: os_Remove_def Let_def lookup_def emit_def)
next
  case (Some node)
  with assms obtain c where "node = File c"
    by (cases node) auto
  with Some assms show ?thesis
    by (simp add: os_Remove_def Let_def lookup_def emit_def set_entries_def)
qed

lemma trace_os_Remove: "trace (os_Remove p w) = trace w @ [EvRemove p]"
  by (simp add: os_Remove_def Let_def emit_def set_entries_def split: option.splits node.splits)

lemma removeAll_files_effect:
  assumes "present (dirs w d)" and "\<forall>n \<in> set ns. map_of (entries (dirs w d)) n \<noteq> Some Dir"
  shows "dirs (removeAll_files d ns w) =
           (dirs w)(d := (dirs w d)\<lparr>entries := filter (\<lambda>e. fst e \<notin> set ns) (entries (dirs w d))\<rparr>) \<and>
         trace (removeAll_files d ns w) = trace w @ map (\<lambda>n. EvRemove (d, n)) ns"
  using assms
proof (induction ns arbitrary: w)
  case Nil
  then show ?case by simp
next
  case (Cons n ns)
  let ?w1 = "os_Remove (d, n) w"
  have w1: "dirs ?w1 = (dirs w)(d := (dirs w d)\<lparr>entries := AList.delete n (entries (dirs w d))\<rparr>)"
    using Cons.prems by (simp add: os_Remove_dirs)
  then have p1: "present (dirs ?w1 d)"
    using Cons.prems by simp
  have e1: "entries (dirs ?w1 d) = AList.delete n (entries (dirs w d))"
    using w1 by simp
  have ok: "\<forall>m \<in> set ns. map_of (entries (dirs ?w1 d)) m \<noteq> Some Dir"
    using Cons.prems by (simp add: e1 delete_conv')
  have filt: "filter (\<lambda>e. fst e \<notin> set ns) (AList.delete n (entries (dirs w d))) =
      filter (\<lambda>e. fst e \<notin> set (n # ns)) (entries (dirs w d))"
    by (auto simp: AList.delete_eq intro!: filter_cong)
  from Cons.IH [OF p1 ok] show ?case
    by (auto simp: filepath_Join_def w1 filt trace_os_Remove fun_eq_iff)
qed


lemma transcript_not_Dir:
  assumes "distinct (map fst es)" and "n \<in> set (map fst (filter isTranscript es))"
  shows "map_of es n \<noteq> Some Dir"
proof -
  from assms(2) obtain node where "(n, node) \<in> set es" and "isTranscript (n, node)"
    by auto
  with assms(1) have "map_of es n = Some node" and "node \<noteq> Dir"
    by (simp_all add: isTranscript_def)
  then show ?thesis by simp
qed

lemma same_name_same_entry:
  "distinct (map fst es) \<Longrightarrow> e \<in> set es \<Longrightarrow> e' \<in> set es \<Longrightarrow> fst e = fst e' \<Longrightarrow> e = e'"
  by (metis eq_key_imp_eq_value prod.collapse)

lemma remove_oldest_effect:
  assumes dir: "present (dirs w d)"
      and names: "distinct (map fst (entries (dirs w d)))"
  shows
    "(let es = entries (dirs w d);
          T = sort (map fst (filter isTranscript es));
          w' = removeAll_files d (take k T) (emit (EvReadDir d) w)
      in trace w' = trace w @ [EvReadDir d] @ map (\<lambda>n. EvRemove (d, n)) (take k T) \<and>
         present (dirs w' d) \<and>
         entries (dirs w' d) = filter (\<lambda>e. fst e \<notin> set (take k T)) es \<and>
         sort (map fst (filter isTranscript (entries (dirs w' d)))) = drop k T \<and>
         filter (\<lambda>e. \<not> isTranscript e) (entries (dirs w' d)) = filter (\<lambda>e. \<not> isTranscript e) es \<and>
         lookup w' (d, ''history.json'') = lookup w (d, ''history.json''))"
proof -
  define es where "es = entries (dirs w d)"
  define T where "T = sort (map fst (filter isTranscript es))"
  define w1 where "w1 = emit (EvReadDir d) w"
  define w' where "w' = removeAll_files d (take k T) w1"
  have distinct_T: "distinct T"
    using names by (simp add: T_def es_def distinct_map_filter)
  have w1_dir: "present (dirs w1 d)" "entries (dirs w1 d) = es" "trace w1 = trace w @ [EvReadDir d]"
    "dirs w1 = dirs w"
    using dir by (simp_all add: w1_def emit_def es_def)
  have files: "\<forall>n \<in> set (take k T). map_of (entries (dirs w1 d)) n \<noteq> Some Dir"
  proof
    fix n assume "n \<in> set (take k T)"
    then have "n \<in> set (map fst (filter isTranscript es))"
      using set_take_subset [of k T] by (auto simp: T_def)
    with names show "map_of (entries (dirs w1 d)) n \<noteq> Some Dir"
      unfolding w1_dir using transcript_not_Dir [of es n] by (simp add: es_def)
  qed
  note effect = removeAll_files_effect [OF w1_dir(1) files, folded w'_def]
  have tr: "trace w' = trace w @ [EvReadDir d] @ map (\<lambda>n. EvRemove (d, n)) (take k T)"
    using effect by (simp add: w1_dir)
  have es': "entries (dirs w' d) = filter (\<lambda>e. fst e \<notin> set (take k T)) es"
    using effect by (simp add: w1_dir es_def)
  have present': "present (dirs w' d)"
    using effect dir by (simp add: w1_dir)
  have survivors: "sort (map fst (filter isTranscript (entries (dirs w' d)))) = drop k T"
  proof -
    have "map fst (filter isTranscript (filter (\<lambda>e. fst e \<notin> set (take k T)) es)) =
          filter (\<lambda>n. n \<notin> set (take k T)) (map fst (filter isTranscript es))"
      by (simp add: filter_map comp_def conj_commute)
    then have "sort (map fst (filter isTranscript (entries (dirs w' d)))) =
          filter (\<lambda>n. n \<notin> set (take k T)) T"
      by (simp add: es' T_def filter_sort)
    with distinct_T show ?thesis
      by (simp add: filter_not_in_take)
  qed
  have transcripts_only: "isTranscript e" if "e \<in> set es" "fst e \<in> set (take k T)" for e
  proof -
    from that(2) have "fst e \<in> set (map fst (filter isTranscript es))"
      using set_take_subset [of k T] by (auto simp: T_def)
    then obtain e' where "e' \<in> set es" "isTranscript e'" "fst e' = fst e"
      by auto
    with names that(1) show ?thesis
      using same_name_same_entry [of es e' e] by (simp add: es_def)
  qed
  have others: "filter (\<lambda>e. \<not> isTranscript e) (entries (dirs w' d)) =
      filter (\<lambda>e. \<not> isTranscript e) es"
    unfolding es' filter_filter
    by (rule filter_cong) (use transcripts_only in auto)
  have hist: "lookup w' (d, ''history.json'') = lookup w (d, ''history.json'')"
  proof -
    have "\<not> HasPrefix ''history.json'' ''backup-''"
      by (simp add: HasPrefix_def)
    then have "''history.json'' \<notin> set (take k T)"
      using set_take_subset [of k T] by (auto simp: T_def isTranscript_def)
    then have "map_of (filter (\<lambda>e. fst e \<notin> set (take k T)) es) ''history.json'' =
        map_of es ''history.json''"
      by (induction es) auto
    with present' dir show ?thesis
      by (simp add: lookup_def es' es_def)
  qed
  from tr present' es' survivors others hist show ?thesis
    unfolding Let_def es_def [symmetric] T_def [symmetric] w1_def [symmetric] w'_def [symmetric]
    by (intro conjI)
qed

lemma pruneOldLogs_cases:
  assumes dir: "present (dirs w (LogDir cfg))"
      and T: "T = sort (map fst (filter isTranscript (entries (dirs w (LogDir cfg)))))"
  shows
    "pruneOldLogs spare cfg w =
       (if int (length T) \<le> MaxLogFiles cfg then Inr (emit (EvReadDir (LogDir cfg)) w)
        else if int (slice_cap spare (length T)) < int (length T) - MaxLogFiles cfg
        then Inl (Panic ''slice bounds out of range'', emit (EvReadDir (LogDir cfg)) w)
        else if int (length T) < int (length T) - MaxLogFiles cfg
        then Inl (Panic ''nil pointer dereference'',
                  removeAll_files (LogDir cfg) T (emit (EvReadDir (LogDir cfg)) w))
        else Inr (removeAll_files (LogDir cfg)
                    (take (nat (int (length T) - MaxLogFiles cfg)) T)
                    (emit (EvReadDir (LogDir cfg)) w)))"
proof -
  define es where "es = entries (dirs w (LogDir cfg))"
  have listing: "os_ReadDir (LogDir cfg) w = (Some (sort_key fst es), emit (EvReadDir (LogDir cfg)) w)"
    using dir by (simp add: os_ReadDir_def es_def)
  show ?thesis
    unfolding T es_def [symmetric]
    by (simp add: pruneOldLogs_def listing Let_def filter_sort sort_key_twice map_sort_key
          take_map [symmetric])
qed

text \<open>
  Retention with a configured maximum that is not negative, in a log directory that is
  there (its entries have distinct names): \<open>pruneOldLogs\<close> returns. Its candidates are the
  entries that are not directories and whose names start with \<^verbatim>\<open>backup-\<close> and end with
  \<^verbatim>\<open>.log\<close>; with \<open>T\<close> their names in ascending order and \<open>k\<close> the number by which their
  count exceeds the maximum (0 when it does not), it calls \<^verbatim>\<open>os.Remove\<close> on the first
  \<open>k\<close> names of \<open>T\<close>, in that order, and on nothing else. The directory then holds the
  former entries but those \<open>k\<close>: the transcripts left are the last ones of \<open>T\<close>, exactly
  the maximum of them when there were more, every entry that is no transcript is still
  there, and the history file is as it was.
\<close>

theorem pruneOldLogs_retention:
  assumes max: "0 \<le> MaxLogFiles cfg"
      and dir: "present (dirs w (LogDir cfg))"
      and names: "distinct (map fst (entries (dirs w (LogDir cfg))))"
  shows
    "(let es = entries (dirs w (LogDir cfg));
          T = sort (map fst (filter isTranscript es));
          k = length T - nat (MaxLogFiles cfg)
      in \<exists>w'. pruneOldLogs spare cfg w = Inr w' \<and>
           trace w' = trace w @ [EvReadDir (LogDir cfg)] @
                      map (\<lambda>n. EvRemove (LogDir cfg, n)) (take k T) \<and>
           entries (dirs w' (LogDir cfg)) = filter (\<lambda>e. fst e \<notin> set (take k T)) es \<and>
           sort (map fst (filter isTranscript (entries (dirs w' (LogDir cfg))))) = drop k T \<and>
           filter (\<lambda>e. \<not> isTranscript e) (entries (dirs w' (LogDir cfg))) =
             filter (\<lambda>e. \<not> isTranscript e) es \<and>
           lookup w' (historyPath cfg) = lookup w (historyPath cfg) \<and>
           (MaxLogFiles cfg < int (length T) \<longrightarrow>
              int (length (filter isTranscript (entries (dirs w' (LogDir cfg))))) = MaxLogFiles cfg) \<and>
           (int (length T) \<le> MaxLogFiles cfg \<longrightarrow> entries (dirs w' (LogDir cfg)) = es))"
proof -
  define d where "d = LogDir cfg"
  define es where "es = entries (dirs w d)"
  define T where "T = sort (map fst (filter isTranscript es))"
  define k where "k = length T - nat (MaxLogFiles cfg)"
  define w' where "w' = removeAll_files d (take k T) (emit (EvReadDir d) w)"
  have cap: "length T \<le> slice_cap spare (length T)"
    by (simp add: slice_cap_def)
  have T: "T = sort (map fst (filter isTranscript (entries (dirs w (LogDir cfg)))))"
    by (simp add: T_def es_def d_def)
  note cases = pruneOldLogs_cases [OF dir T, of spare, folded d_def]
  have run: "pruneOldLogs spare cfg w = Inr w'"
  proof (cases "int (length T) \<le> MaxLogFiles cfg")
    case True
    then have "k = 0"
      by (simp add: k_def)
    with True show ?thesis
      unfolding cases by (simp add: w'_def)
  next
    case False
    with max have "nat (int (length T) - MaxLogFiles cfg) = k"
      by (simp add: k_def nat_diff_distrib')
    with False max cap show ?thesis
      unfolding cases by (simp add: w'_def)
  qed
  note effect = remove_oldest_effect [OF dir names, of k, unfolded Let_def,
      folded d_def, folded es_def, folded T_def, folded w'_def]
  have hist: "lookup w' (historyPath cfg) = lookup w (historyPath cfg)"
    using effect by (simp add: historyPath_def filepath_Join_def d_def)
  have count: "int (length (filter isTranscript (entries (dirs w' d)))) = MaxLogFiles cfg"
    if "MaxLogFiles cfg < int (length T)"
  proof -
    have "length (filter isTranscript (entries (dirs w' d))) = length (drop k T)"
      using effect by (metis length_map length_sort)
    with that max show ?thesis
      by (simp add: k_def)
  qed
  have same: "entries (dirs w' d) = es" if "int (length T) \<le> MaxLogFiles cfg"
    using that effect by (simp add: k_def)
  from run effect hist count same show ?thesis
    unfolding Let_def d_def [symmetric] es_def [symmetric] T_def [symmetric] k_def [symmetric]
    by blast
qed

lemma five_transcripts:
  "sort (map fst (filter isTranscript (entries (dirs five_world ''./logs'')))) =
     [''backup-20240305-070500.log'', ''backup-20240306-070500.log'',
      ''backup-20240307-070500.log'', ''backup-20240308-070500.log'',
      ''backup-20240309-070500.log'']"
  unfolding five_world_def by code_simp

theorem pruneOldLogs_retention_witness:
  "\<exists>w'. pruneOldLogs doubling_spare sample_cfg five_world = Inr w' \<and>
     trace w' = [EvReadDir ''./logs'', EvRemove (''./logs'', ''backup-20240305-070500.log''),
                 EvRemove (''./logs'', ''backup-20240306-070500.log'')] \<and>
     map fst (entries (dirs w' ''./logs'')) =
       [''backup-20240309-070500.log'', ''history.json'', ''backup-20240307-070500.log'',
        ''backup-archive.log'', ''backup-20240308-070500.log'', ''settings.json'']"
proof -
  have max: "0 \<le> MaxLogFiles sample_cfg" and dir_name: "LogDir sample_cfg = ''./logs''"
    and keep: "nat (MaxLogFiles sample_cfg) = 3"
    by (simp_all add: sample_cfg_def)
  have dir: "present (dirs five_world (LogDir sample_cfg))"
    by (simp add: dir_name five_world_def)
  have names: "distinct (map fst (entries (dirs five_world (LogDir sample_cfg))))"
    by (simp add: dir_name five_world_def)
  have oldest: "take (length [''backup-20240305-070500.log'', ''backup-20240306-070500.log'',
        ''backup-20240307-070500.log'', ''backup-20240308-070500.log'',
        ''backup-20240309-070500.log''] - 3)
      [''backup-20240305-070500.log'', ''backup-20240306-070500.log'',
       ''backup-20240307-070500.log'', ''backup-20240308-070500.log'',
       ''backup-20240309-070500.log''] =
      [''backup-20240305-070500.log'', ''backup-20240306-070500.log'']"
    by simp
  note main = pruneOldLogs_retention [OF max dir names, of doubling_spare,
      unfolded Let_def dir_name five_transcripts keep oldest]
  then obtain w' where w': "pruneOldLogs doubling_spare sample_cfg five_world = Inr w'"
    and tr: "trace w' = trace five_world @ [EvReadDir ''./logs''] @
        map (\<lambda>n. EvRemove (''./logs'', n))
          [''backup-20240305-070500.log'', ''backup-20240306-070500.log'']"
    and es: "entries (dirs w' ''./logs'') =
        filter (\<lambda>e. fst e \<notin> set [''backup-20240305-070500.log'', ''backup-20240306-070500.log''])
          (entries (dirs five_world ''./logs''))"
    by blast
  from tr have tr': "trace w' = [EvReadDir ''./logs'', EvRemove (''./logs'', ''backup-20240305-070500.log''),
                 EvRemove (''./logs'', ''backup-20240306-070500.log'')]"
    by (simp add: five_world_def)
  from es have es': "map fst (entries (dirs w' ''./logs'')) =
       [''backup-20240309-070500.log'', ''history.json'', ''backup-20240307-070500.log'',
        ''backup-archive.log'', ''backup-20240308-070500.log'', ''settings.json'']"
    by (simp add: five_world_def)
  show ?thesis
    by (rule exI [of _ w']) (simp only: w' tr' es' simp_thms)
qed


text \<open>
  With a negative maximum in a log directory that is there, \<open>pruneOldLogs\<close> never returns:
  it panics at the slice expression when the transcripts and the negated maximum together
  exceed the capacity of the slice, and otherwise removes every transcript, oldest first,
  and panics at the nil entry that follows them.
\<close>

lemma pruneOldLogs_negative:
  assumes max: "MaxLogFiles cfg < 0"
      and dir: "present (dirs w (LogDir cfg))"
      and names: "distinct (map fst (entries (dirs w (LogDir cfg))))"
  shows
    "(let es = entries (dirs w (LogDir cfg));
          T = sort (map fst (filter isTranscript es))
      in (int (slice_cap spare (length T)) < int (length T) - MaxLogFiles cfg \<longrightarrow>
            pruneOldLogs spare cfg w =
              Inl (Panic ''slice bounds out of range'', emit (EvReadDir (LogDir cfg)) w)) \<and>
         (\<not> int (slice_cap spare (length T)) < int (length T) - MaxLogFiles cfg \<longrightarrow>
            (\<exists>w'. pruneOldLogs spare cfg w = Inl (Panic ''nil pointer dereference'', w') \<and>
               trace w' = trace w @ [EvReadDir (LogDir cfg)] @
                          map (\<lambda>n. EvRemove (LogDir cfg, n)) T \<and>
               entries (dirs w' (LogDir cfg)) = filter (\<lambda>e. \<not> isTranscript e) es)))"
proof -
  define d where "d = LogDir cfg"
  define es where "es = entries (dirs w d)"
  define T where "T = sort (map fst (filter isTranscript es))"
  define w' where "w' = removeAll_files d T (emit (EvReadDir d) w)"
  have more: "\<not> int (length T) \<le> MaxLogFiles cfg" "int (length T) < int (length T) - MaxLogFiles cfg"
    using max by simp_all
  have T: "T = sort (map fst (filter isTranscript (entries (dirs w (LogDir cfg)))))"
    by (simp add: T_def es_def d_def)
  note cases = pruneOldLogs_cases [OF dir T, of spare, folded d_def]
  have beyond: "pruneOldLogs spare cfg w = Inl (Panic ''slice bounds out of range'', emit (EvReadDir d) w)"
    if "int (slice_cap spare (length T)) < int (length T) - MaxLogFiles cfg"
    using that more cases by simp
  have within: "pruneOldLogs spare cfg w = Inl (Panic ''nil pointer dereference'', w')"
    if "\<not> int (slice_cap spare (length T)) < int (length T) - MaxLogFiles cfg"
    using that more cases by (simp add: w'_def)
  note effect = remove_oldest_effect [OF dir names, of "length T", unfolded Let_def,
      folded d_def, folded es_def, folded T_def, simplified, folded w'_def]
  have tr: "trace w' = trace w @ [EvReadDir d] @ map (\<lambda>n. EvRemove (d, n)) T"
    using effect by simp
  have none_left: "filter isTranscript (entries (dirs w' d)) = []"
    using effect by (metis length_0_conv length_map length_sort)
  have "entries (dirs w' d) = filter (\<lambda>e. \<not> isTranscript e) (entries (dirs w' d))"
    using none_left by (simp add: filter_empty_conv filter_id_conv)
  also have "\<dots> = filter (\<lambda>e. \<not> isTranscript e) es"
    using effect by (elim conjE)
  finally have left: "entries (dirs w' d) = filter (\<lambda>e. \<not> isTranscript e) es" .
  from beyond within tr left show ?thesis
    unfolding Let_def d_def [symmetric] es_def [symmetric] T_def [symmetric]
    by blast
qed

lemma three_transcripts:
  "sort (map fst (filter isTranscript (entries (dirs three_world ''./logs'')))) =
     [''backup-20240305-070500.log'', ''backup-20240306-070500.log'',
      ''backup-20240307-070500.log'']"
  unfolding three_world_def by code_simp

lemma one_transcript:
  "sort (map fst (filter isTranscript (entries (dirs used_world ''./logs'')))) =
     [''backup-20240309-070500.log'']"
  unfolding used_world_def by code_simp

lemma doubling_capacity:
  "slice_cap doubling_spare (Suc 0) = 1" "slice_cap doubling_spare (Suc (Suc (Suc 0))) = 4"
  by (simp_all add: slice_cap_def doubling_spare_def)

text \<open>
  C8. Retention is to delete exactly the oldest transcripts in excess of the configured
  maximum and to leave that many of the newest. The code does so for every maximum that
  is not negative (\<open>pruneOldLogs_retention\<close>), but it fails for a negative maximum, which
  the configuration file may hold (\<^verbatim>\<open>max_log_files\<close> is an \<^verbatim>\<open>int\<close> that nothing
  validates). With the maximum -1 and three transcripts, whose slice has capacity 4,
  \<open>pruneOldLogs\<close> removes all three transcripts and then panics; with one transcript,
  whose slice has capacity 1, it panics at the slice expression and removes nothing. In
  neither case does it return.
\<close>

theorem pruneOldLogs_negative_maximum:
  "(\<exists>w'. pruneOldLogs doubling_spare (sample_cfg\<lparr>MaxLogFiles := - 1\<rparr>) three_world =
           Inl (Panic ''nil pointer dereference'', w') \<and>
         trace w' = [EvReadDir ''./logs'', EvRemove (''./logs'', ''backup-20240305-070500.log''),
                     EvRemove (''./logs'', ''backup-20240306-070500.log''),
                     EvRemove (''./logs'', ''backup-20240307-070500.log'')] \<and>
         entries (dirs w' ''./logs'') = [(''history.json'', File sample_document)]) \<and>
   pruneOldLogs doubling_spare (sample_cfg\<lparr>MaxLogFiles := - 1\<rparr>) used_world =
     Inl (Panic ''slice bounds out of range'', emit (EvReadDir ''./logs'') used_world)"
proof -
  let ?cfg = "sample_cfg\<lparr>MaxLogFiles := - 1\<rparr>"
  have max: "MaxLogFiles ?cfg < 0" and dir_name: "LogDir ?cfg = ''./logs''"
    by (simp_all add: sample_cfg_def)
  have dir3: "present (dirs three_world (LogDir ?cfg))"
    and names3: "distinct (map fst (entries (dirs three_world (LogDir ?cfg))))"
    unfolding dir_name by (simp_all add: three_world_def)
  have within: "\<not> int (slice_cap doubling_spare (length [''backup-20240305-070500.log'',
        ''backup-20240306-070500.log'', ''backup-20240307-070500.log''])) <
      int (length [''backup-20240305-070500.log'', ''backup-20240306-070500.log'',
        ''backup-20240307-070500.log'']) - MaxLogFiles ?cfg"
    by (simp add: doubling_capacity sample_cfg_def)
  note three = pruneOldLogs_negative [OF max dir3 names3, of doubling_spare,
      unfolded Let_def dir_name three_transcripts]
  from three within
  obtain w' where w': "pruneOldLogs doubling_spare ?cfg three_world =
        Inl (Panic ''nil pointer dereference'', w')"
    and tr: "trace w' = trace three_world @ [EvReadDir ''./logs''] @
        map (\<lambda>n. EvRemove (''./logs'', n))
          [''backup-20240305-070500.log'', ''backup-20240306-070500.log'',
           ''backup-20240307-070500.log'']"
    and es: "entries (dirs w' ''./logs'') =
        filter (\<lambda>e. \<not> isTranscript e) (entries (dirs three_world ''./logs''))"
    by blast
  from tr have tr': "trace w' = [EvReadDir ''./logs'',
      EvRemove (''./logs'', ''backup-20240305-070500.log''),
      EvRemove (''./logs'', ''backup-20240306-070500.log''),
      EvRemove (''./logs'', ''backup-20240307-070500.log'')]"
    by (simp add: three_world_def)
  from es have es': "entries (dirs w' ''./logs'') = [(''history.json'', File sample_document)]"
    by (simp add: three_world_def isTranscript_def HasPrefix_def HasSuffix_def)
  have first: "\<exists>w'. pruneOldLogs doubling_spare ?cfg three_world =
           Inl (Panic ''nil pointer dereference'', w') \<and>
         trace w' = [EvReadDir ''./logs'', EvRemove (''./logs'', ''backup-20240305-070500.log''),
                     EvRemove (''./logs'', ''backup-20240306-070500.log''),
                     EvRemove (''./logs'', ''backup-20240307-070500.log'')] \<and>
         entries (dirs w' ''./logs'') = [(''history.json'', File sample_document)]"
    by (rule exI [of _ w']) (simp only: w' tr' es' simp_thms)
  have dir1: "present (dirs used_world (LogDir ?cfg))"
    and names1: "distinct (map fst (entries (dirs used_world (LogDir ?cfg))))"
    unfolding dir_name by (simp_all add: used_world_def)
  have beyond: "int (slice_cap doubling_spare (length [''backup-20240309-070500.log''])) <
      int (length [''backup-20240309-070500.log'']) - MaxLogFiles ?cfg"
    by (simp add: doubling_capacity sample_cfg_def)
  note one = pruneOldLogs_negative [OF max dir1 names1, of doubling_spare,
      unfolded Let_def dir_name one_transcript]
  from one [THEN conjunct1] beyond
  have second: "pruneOldLogs doubling_spare ?cfg used_world =
      Inl (Panic ''slice bounds out of range'', emit (EvReadDir ''./logs'') used_world)"
    by (rule mp)
  from first second show ?thesis
    by (rule conjI)
qed

lemma present_emit: "present (dirs (emit e w) d) = present (dirs w d)"
  by (simp add: emit_def)

lemma present_set_entries: "present (dirs (set_entries d' es w) d) = present (dirs w d)"
  by (simp add: set_entries_def)

lemma present_file_append: "present (dirs (file_append p s w) d) = present (dirs w d)"
  by (simp add: file_append_def present_set_entries split: option.splits node.splits)

lemma present_Fprintf: "present (dirs (Fprintf p s w) d) = present (dirs w d)"
  by (simp add: Fprintf_def present_file_append present_emit)

lemma present_saveHistory: "present (dirs (saveHistory lib cfg ex w) d) = present (dirs w d)"
  by (simp add: saveHistory_def os_WriteFile_def Let_def present_set_entries present_emit
        split: option.splits)

lemma present_finishRun:
  "present (dirs (snd (finishRun lib cfg run exitCode summary now s)) d) = present (dirs (snd s) d)"
  by (simp add: finishRun_snd present_saveHistory)

lemma os_Create_present:
  "fst (os_Create p w) \<Longrightarrow> present (dirs (snd (os_Create p w)) (fst p))"
  by (simp add: os_Create_def Let_def present_set_entries present_emit split: if_splits)

lemma pruneOldLogs_negative_panics:
  assumes "MaxLogFiles cfg < 0" and "present (dirs w (LogDir cfg))"
  shows "\<exists>e w'. pruneOldLogs spare cfg w = Inl (e, w')"
  using assms pruneOldLogs_cases [OF assms(2) refl, of spare] by auto

text \<open>
  So with a negative maximum every run whose transcript could be created ends in a panic,
  after the run was recorded.
\<close>

lemma execute_negative_maximum:
  assumes max: "MaxLogFiles cfg < 0" and path: "fst logPath = LogDir cfg"
      and created: "fst (os_Create logPath (snd (os_MkdirAll (LogDir cfg) (snd s))))"
  shows "\<exists>e ex' w'. execute lib cfg env run logPath s = Inl (e, ex', w') \<and> current ex' = None"
proof -
  let ?code = "case cmd_res env of CmdOk \<Rightarrow> 0 | ExitError c \<Rightarrow> c | OtherError \<Rightarrow> 1"
  let ?summary = "case cmd_res env of CmdOk \<Rightarrow> ''completed successfully''
                    | ExitError c \<Rightarrow> rsyncExitSummary c | OtherError \<Rightarrow> rsyncExitSummary 1"
  let ?w0 = "snd (os_Create logPath (snd (os_MkdirAll (LogDir cfg) (snd s))))"
  let ?w1 = "Fprintf logPath
      (''\<newline>=== Backup finished at '' @ Format_RFC3339 (now_banner env) @ '' (exit code: '' @
       fmt_d ?code @ '') ===\<newline>'')
      (file_append logPath (cmd_out env)
        (emit (EvExec ''rsync'' (buildRsyncArgs cfg))
          (Fprintf logPath (''Command: rsync '' @ Join (buildRsyncArgs cfg) '' '' @ ''\<newline>\<newline>'')
            (Fprintf logPath
              (''=== Backup started at '' @ Format_RFC3339 (StartTime run) @ '' ===\<newline>'') ?w0))))"
  let ?F = "finishRun lib cfg run ?code ?summary (now_finish env) (fst s, ?w1)"
  have form: "execute lib cfg env run logPath s =
      (case pruneOldLogs (spare_cap env) cfg (snd ?F) of
         Inl (e, w) \<Rightarrow> Inl (e, fst ?F, w)
       | Inr w \<Rightarrow> Inr (fst ?F, w))"
    using created
    by (cases "os_Create logPath (snd (os_MkdirAll (LogDir cfg) (snd s)))"; cases "cmd_res env")
       (simp_all add: execute_def Let_def case_prod_beta split: sum.splits)
  have "present (dirs ?w0 (LogDir cfg))"
    using os_Create_present [OF created] by (simp add: path)
  then have "present (dirs (snd ?F) (LogDir cfg))"
    by (simp add: present_finishRun present_Fprintf present_file_append present_emit)
  with max obtain e w' where "pruneOldLogs (spare_cap env) cfg (snd ?F) = Inl (e, w')"
    using pruneOldLogs_negative_panics by blast
  with form have "execute lib cfg env run logPath s = Inl (e, fst ?F, w')"
    by simp
  moreover have "current (fst ?F) = None"
    by (simp add: finishRun_fst)
  ultimately show ?thesis
    by (intro exI conjI)
qed

section \<open>Run identifiers\<close>

lemma of_char_digit: "d < 10 \<Longrightarrow> of_char (digit_char d) = 48 + d"
  by (simp add: digit_char_def)

lemma digits_value_snoc:
  "digits_value (s @ [c]) = 10 * digits_value s + (of_char c - 48)"
  by (simp add: digits_value_def)

lemma digits_value_itoa_nat: "digits_value (itoa_nat n) = n"
proof (induction n rule: itoa_nat.induct)
  case (1 n)
  show ?case
  proof (cases "n < 10")
    case True
    then show ?thesis
      by (subst itoa_nat.simps) (simp add: digits_value_def of_char_digit)
  next
    case False
    with 1 have "digits_value (itoa_nat (n div 10)) = n div 10"
      by simp
    with False show ?thesis
      by (subst itoa_nat.simps) (simp add: digits_value_snoc of_char_digit)
  qed
qed

lemma digits_value_zeros: "digits_value (replicate k (CHR ''0'') @ s) = digits_value s"
proof -
  have "foldl (\<lambda>a c. 10 * a + (of_char c - 48)) (0::nat) (replicate k (CHR ''0'')) = 0"
    by (induction k) simp_all
  then show ?thesis
    by (simp add: digits_value_def)
qed

lemma digits_value_appendInt: "0 \<le> x \<Longrightarrow> digits_value (appendInt x w) = nat x"
  by (simp add: appendInt_def Let_def digits_value_zeros digits_value_itoa_nat)

lemma appendInt_inj:
  assumes "0 \<le> x" "0 \<le> y" "appendInt x w = appendInt y w"
  shows "x = y"
proof -
  have "nat x = nat y"
    using assms by (metis digits_value_appendInt)
  with assms show ?thesis by simp
qed

lemma length_itoa_nat: "n < 10 ^ w \<Longrightarrow> 0 < w \<Longrightarrow> length (itoa_nat n) \<le> w"
proof (induction n arbitrary: w rule: itoa_nat.induct)
  case (1 n)
  show ?case
  proof (cases "n < 10")
    case True
    with 1 show ?thesis
      by (subst itoa_nat.simps) simp
  next
    case False
    with "1.prems" obtain v where w: "w = Suc v" "0 < v"
      by (cases w; cases "w - 1") auto
    with "1.prems" have "n div 10 < 10 ^ v"
      by (simp add: div_less_iff_less_mult mult.commute)
    with 1 False w have "length (itoa_nat (n div 10)) \<le> v"
      by simp
    with False w show ?thesis
      by (subst itoa_nat.simps) simp
  qed
qed

lemma length_appendInt:
  assumes "0 \<le> x" "x < 10 ^ w" "0 < w"
  shows "length (appendInt x w) = w"
proof -
  have "nat x < 10 ^ w"
    using assms by (simp add: nat_less_iff)
  then have "length (itoa_nat (nat x)) \<le> w"
    using assms(3) by (rule length_itoa_nat)
  with assms show ?thesis
    by (simp add: appendInt_def Let_def)
qed

lemma append_same_length:
  "length a = length b \<Longrightarrow> a @ x = b @ y \<Longrightarrow> a = b \<and> x = y"
  by simp

lemma length_appendInt2: "0 \<le> x \<Longrightarrow> x \<le> 59 \<Longrightarrow> length (appendInt x 2) = 2"
  by (rule length_appendInt) simp_all

lemma Format_runID_inj:
  assumes t: "valid_clock t" and u: "valid_clock u" and eq: "Format_runID t = Format_runID u"
  shows "same_second t u"
proof -
  from t u have ranges:
    "0 \<le> t_month t" "t_month t \<le> 59" "0 \<le> t_month u" "t_month u \<le> 59"
    "0 \<le> t_day t" "t_day t \<le> 59" "0 \<le> t_day u" "t_day u \<le> 59"
    "0 \<le> t_hour t" "t_hour t \<le> 59" "0 \<le> t_hour u" "t_hour u \<le> 59"
    "0 \<le> t_minute t" "t_minute t \<le> 59" "0 \<le> t_minute u" "t_minute u \<le> 59"
    "0 \<le> t_second t" "t_second t \<le> 59" "0 \<le> t_second u" "t_second u \<le> 59"
    "0 \<le> t_year t" "0 \<le> t_year u"
    by (simp_all add: valid_clock_def)
  have len_year: "length (appendInt (t_year t) 4) = length (appendInt (t_year u) 4)"
    using t u by (simp add: length_appendInt valid_clock_def)
  have len_month: "length (appendInt (t_month t) 2) = length (appendInt (t_month u) 2)"
    using ranges by (simp add: length_appendInt2)
  have len_day: "length (appendInt (t_day t) 2) = length (appendInt (t_day u) 2)"
    using ranges by (simp add: length_appendInt2)
  have len_hour: "length (appendInt (t_hour t) 2) = length (appendInt (t_hour u) 2)"
    using ranges by (simp add: length_appendInt2)
  have len_minute: "length (appendInt (t_minute t) 2) = length (appendInt (t_minute u) 2)"
    using ranges by (simp add: length_appendInt2)
  from eq have "appendInt (t_year t) 4 @ (appendInt (t_month t) 2 @ appendInt (t_day t) 2 @ ''-'' @
        appendInt (t_hour t) 2 @ appendInt (t_minute t) 2 @ appendInt (t_second t) 2) =
      appendInt (t_year u) 4 @ (appendInt (t_month u) 2 @ appendInt (t_day u) 2 @ ''-'' @
        appendInt (t_hour u) 2 @ appendInt (t_minute u) 2 @ appendInt (t_second u) 2)"
    by (simp only: Format_runID_def)
  from append_same_length [OF len_year this]
  have year: "appendInt (t_year t) 4 = appendInt (t_year u) 4"
    and rest: "appendInt (t_month t) 2 @ (appendInt (t_day t) 2 @ ''-'' @
        appendInt (t_hour t) 2 @ appendInt (t_minute t) 2 @ appendInt (t_second t) 2) =
      appendInt (t_month u) 2 @ (appendInt (t_day u) 2 @ ''-'' @
        appendInt (t_hour u) 2 @ appendInt (t_minute u) 2 @ appendInt (t_second u) 2)"
    by blast+
  from append_same_length [OF len_month rest]
  have month: "appendInt (t_month t) 2 = appendInt (t_month u) 2"
    and rest: "appendInt (t_day t) 2 @ (''-'' @
        appendInt (t_hour t) 2 @ appendInt (t_minute t) 2 @ appendInt (t_second t) 2) =
      appendInt (t_day u) 2 @ (''-'' @
        appendInt (t_hour u) 2 @ appendInt (t_minute u) 2 @ appendInt (t_second u) 2)"
    by blast+
  from append_same_length [OF len_day rest]
  have day: "appendInt (t_day t) 2 = appendInt (t_day u) 2"
    and rest: "appendInt (t_hour t) 2 @ (appendInt (t_minute t) 2 @ appendInt (t_second t) 2) =
      appendInt (t_hour u) 2 @ (appendInt (t_minute u) 2 @ appendInt (t_second u) 2)"
    by simp_all
  from append_same_length [OF len_hour rest]
  have hour: "appendInt (t_hour t) 2 = appendInt (t_hour u) 2"
    and rest: "appendInt (t_minute t) 2 @ appendInt (t_second t) 2 =
      appendInt (t_minute u) 2 @ appendInt (t_second u) 2"
    by blast+
  from append_same_length [OF len_minute rest]
  have minute: "appendInt (t_minute t) 2 = appendInt (t_minute u) 2"
    and second: "appendInt (t_second t) 2 = appendInt (t_second u) 2"
    by blast+
  from year month day hour minute second ranges show ?thesis
    unfolding same_second_def by (intro conjI appendInt_inj)
qed


text \<open>
  C10, as the code has it. The id of a run is the first clock reading of \<open>Run\<close>, printed
  as \<^verbatim>\<open>YYYYMMDD-HHMMSS\<close>; the record with that id is the current run. \<open>finishRun\<close>
  keeps the id of the record it completes and the ids of the records already in the
  history, in order (up to the cut at 100). Two valid clock readings give the same id
  exactly when they fall in the same second of local time, so runs started in different
  seconds have different ids and runs started within one second share theirs.
\<close>

theorem run_id_from_clock:
  "(status ex \<noteq> StatusRunning \<longrightarrow>
      (\<exists>run. fst (Run cfg now1 now2 ex) =
               Inr (run, filepath_Join (LogDir cfg) (''backup-'' @ Format_runID now1 @ ''.log'')) \<and>
             current (snd (Run cfg now1 now2 ex)) = Some run \<and> ID run = Format_runID now1)) \<and>
   map ID (history (fst (finishRun lib cfg run exitCode summary now s))) =
     take 100 (ID run # map ID (history (fst s))) \<and>
   (valid_clock t \<and> valid_clock u \<longrightarrow> (Format_runID t = Format_runID u) = same_second t u)"
proof (intro conjI impI)
  assume "status ex \<noteq> StatusRunning"
  then show "\<exists>run. fst (Run cfg now1 now2 ex) =
               Inr (run, filepath_Join (LogDir cfg) (''backup-'' @ Format_runID now1 @ ''.log'')) \<and>
             current (snd (Run cfg now1 now2 ex)) = Some run \<and> ID run = Format_runID now1"
    by (simp add: Run_def Let_def)
next
  show "map ID (history (fst (finishRun lib cfg run exitCode summary now s))) =
     take 100 (ID run # map ID (history (fst s)))"
    by (simp add: finishRun_fst take_map)
next
  assume valid: "valid_clock t \<and> valid_clock u"
  show "(Format_runID t = Format_runID u) = same_second t u"
  proof
    assume "Format_runID t = Format_runID u"
    with valid show "same_second t u"
      by (simp add: Format_runID_inj)
  next
    assume "same_second t u"
    then show "Format_runID t = Format_runID u"
      by (simp add: same_second_def Format_runID_def)
  qed
qed

theorem run_id_from_clock_witness:
  "Format_runID sample_time \<noteq> Format_runID sample_next \<and>
   Format_runID sample_time = Format_runID sample_later \<and>
   (\<exists>run. current (snd (Run sample_cfg sample_next sample_next idle_executor)) = Some run \<and>
      ID run = ''20240309-070501'')"
proof -
  have valid: "valid_clock sample_time" "valid_clock sample_next" "valid_clock sample_later"
    by (simp_all add: valid_clock_def sample_time_def sample_next_def sample_later_def)
  have apart: "\<not> same_second sample_time sample_next"
    by (simp add: same_second_def sample_time_def sample_next_def)
  have together: "same_second sample_time sample_later"
    by (simp add: same_second_def sample_time_def sample_later_def)
  have idle: "status idle_executor \<noteq> StatusRunning"
    by (simp add: idle_executor_def Status_defs)
  note main = run_id_from_clock [where cfg = sample_cfg and ex = idle_executor
      and ?now1.0 = sample_next and ?now2.0 = sample_next and t = sample_time
      and lib = sample_lib and run = sample_run and exitCode = 0 and summary = "[]"
      and now = sample_next and s = "(idle_executor, fresh_world)"]
  from main [where u = sample_next] valid apart
  have first: "Format_runID sample_time \<noteq> Format_runID sample_next"
    by simp
  from main [where u = sample_later] valid together
  have second: "Format_runID sample_time = Format_runID sample_later"
    by simp
  from main [where u = sample_next] idle
  have "\<exists>run. current (snd (Run sample_cfg sample_next sample_next idle_executor)) = Some run \<and>
      ID run = Format_runID sample_next"
    by blast
  then obtain run
    where "current (snd (Run sample_cfg sample_next sample_next idle_executor)) = Some run"
      and "ID run = Format_runID sample_next"
    by blast
  moreover have "Format_runID sample_next = ''20240309-070501''"
    by (simp add: Format_runID_def sample_next_def sample_time_def decimal_simps)
  ultimately have third: "\<exists>run. current (snd (Run sample_cfg sample_next sample_next idle_executor)) =
      Some run \<and> ID run = ''20240309-070501''"
    by auto
  from first second third show ?thesis
    by (intro conjI)
qed

text \<open>
  The claim as it is written fails for two runs within one second: a run that starts and
  ends, and the next that starts 750 milliseconds after the first, are distinct runs with
  the same id (and the same transcript name).
\<close>

theorem run_id_counterexample:
  "Run sample_cfg sample_time sample_time idle_executor =
     (Inr (sample_run, (''./logs'', ''backup-20240309-070500.log'')), busy_executor) \<and>
   fst (finishRun sample_lib sample_cfg sample_run 0 ''completed successfully'' sample_later
          (busy_executor, fresh_world)) =
     \<lparr>status = StatusSuccess, current = None, history = [sample_done]\<rparr> \<and>
   Run sample_cfg sample_later sample_later
       \<lparr>status = StatusSuccess, current = None, history = [sample_done]\<rparr> =
     (Inr (sample_run\<lparr>StartTime := sample_later\<rparr>, (''./logs'', ''backup-20240309-070500.log'')),
      \<lparr>status = StatusRunning, current = Some (sample_run\<lparr>StartTime := sample_later\<rparr>),
         history = [sample_done]\<rparr>) \<and>
   sample_run\<lparr>StartTime := sample_later\<rparr> \<noteq> sample_run \<and>
   ID (sample_run\<lparr>StartTime := sample_later\<rparr>) = ID sample_run"
proof -
  have later: "Format_runID sample_later = ''20240309-070500''"
    by (simp add: Format_runID_def sample_later_def decimal_simps)
  have first: "Run sample_cfg sample_time sample_time idle_executor =
     (Inr (sample_run, (''./logs'', ''backup-20240309-070500.log'')), busy_executor)"
    by (simp add: Run_def Let_def idle_executor_def busy_executor_def sample_run_def
          Format_runID_sample Status_defs filepath_Join_def sample_cfg_def)
  have completed: "fst (finishRun sample_lib sample_cfg sample_run 0 ''completed successfully''
      sample_later (busy_executor, fresh_world)) =
     \<lparr>status = StatusSuccess, current = None, history = [sample_done]\<rparr>"
    by (simp add: finishRun_fst busy_executor_def sample_done_def sample_run_def sample_duration)
  have again: "Run sample_cfg sample_later sample_later
       \<lparr>status = StatusSuccess, current = None, history = [sample_done]\<rparr> =
     (Inr (sample_run\<lparr>StartTime := sample_later\<rparr>, (''./logs'', ''backup-20240309-070500.log'')),
      \<lparr>status = StatusRunning, current = Some (sample_run\<lparr>StartTime := sample_later\<rparr>),
         history = [sample_done]\<rparr>)"
    by (simp add: Run_def Let_def sample_run_def later Status_defs filepath_Join_def sample_cfg_def)
  have distinct_runs: "sample_run\<lparr>StartTime := sample_later\<rparr> \<noteq> sample_run"
    by (simp add: sample_run_def sample_later_def sample_time_def)
  have same_id: "ID (sample_run\<lparr>StartTime := sample_later\<rparr>) = ID sample_run"
    by simp
  from first completed again distinct_runs same_id show ?thesis
    by (intro conjI)
qed

end
